theory Spec2Isabelle
  imports Complex_Main "HOL-Library.Char_ord" "HOL-Library.List_Lexorder"
    "HOL-Library.Product_Lexorder"
begin

section \<open>Guard ranking pipeline: feature engineering, encoders, top-K, evaluation\<close>

text \<open>
  The development follows four source files:
  \<^item> \<^verbatim>\<open>scripts/prepare_features.py\<close> (training transform, fitting of the label encoders),
  \<^item> \<^verbatim>\<open>scripts/predict_guard.py\<close> (offline inference script),
  \<^item> \<^verbatim>\<open>backend/main.py\<close> (serving transform, top-K response, explainability),
  \<^item> \<^verbatim>\<open>scripts/train_xgboost.py\<close> (MRR and top-K accuracy).

  Python floats are modelled as \<^typ>\<open>real\<close>: arithmetic is exact, there is no rounding, and
  the two float results that are not numbers are written out where the code can produce them
  (the exception of a Python division by zero, the NaN of an average over nothing).
  Exceptions are values of \<open>py_error\<close>, on the left of a sum.
\<close>

datatype py_error = ValueError | KeyError | IndexError | ZeroDivisionError

subsection \<open>Python helpers\<close>

text \<open>\<^verbatim>\<open>xs[:k]\<close>: a negative \<open>k\<close> counts from the end, and nothing is ever raised.\<close>

definition py_slice_to :: "int \<Rightarrow> 'a list \<Rightarrow> 'a list" where
  "py_slice_to k xs = (if 0 \<le> k then take (nat k) xs else take (length xs - nat (- k)) xs)"

text \<open>\<^verbatim>\<open>str(n)\<close> for a natural number, as used by the f-strings of the source.\<close>

definition digit_char :: "nat \<Rightarrow> char" where
  "digit_char d = ''0123456789'' ! d"

fun str_nat :: "nat \<Rightarrow> string" where
  "str_nat n = (if n < 10 then [digit_char n] else str_nat (n div 10) @ [digit_char (n mod 10)])"

declare str_nat.simps [simp del]

definition str_int :: "int \<Rightarrow> string" where
  "str_int i = (if i < 0 then CHR ''-'' # str_nat (nat (- i)) else str_nat (nat i))"

subsection \<open>sklearn's LabelEncoder\<close>

text \<open>
  The encoder of the source is \<^verbatim>\<open>sklearn.preprocessing.LabelEncoder\<close>. \<^verbatim>\<open>fit\<close> stores
  \<^verbatim>\<open>classes_ = np.unique(y)\<close>, the distinct values in ascending order; \<^verbatim>\<open>transform\<close> maps
  each value to its position in \<^verbatim>\<open>classes_\<close> and raises \<^verbatim>\<open>ValueError\<close> ("y contains previously
  unseen labels") when a value is not there; \<^verbatim>\<open>inverse_transform\<close> raises \<^verbatim>\<open>ValueError\<close> when
  an index is outside \<^verbatim>\<open>arange(len(classes_))\<close> and otherwise reads \<^verbatim>\<open>classes_\<close> at it.
\<close>

datatype 'a LabelEncoder = LabelEncoder (classes: "'a list")

definition class_index :: "'a list \<Rightarrow> 'a \<Rightarrow> nat" where
  "class_index cs v = length (takeWhile (\<lambda>c. c \<noteq> v) cs)"

definition fit :: "'a::linorder list \<Rightarrow> 'a LabelEncoder" where
  "fit y = LabelEncoder (sort (remdups y))"

definition transform :: "'a LabelEncoder \<Rightarrow> 'a list \<Rightarrow> py_error + int list" where
  "transform le y =
     (if list_all (\<lambda>v. v \<in> set (classes le)) y
      then Inr (map (\<lambda>v. int (class_index (classes le) v)) y)
      else Inl ValueError)"

definition fit_transform :: "'a::linorder list \<Rightarrow> 'a LabelEncoder \<times> int list" where
  "fit_transform y =
     (let le = fit y in (le, map (\<lambda>v. int (class_index (classes le) v)) y))"

definition inverse_transform :: "'a LabelEncoder \<Rightarrow> int list \<Rightarrow> py_error + 'a list" where
  "inverse_transform le y =
     (if list_all (\<lambda>i. 0 \<le> i \<and> i < int (length (classes le))) y
      then Inr (map (\<lambda>i. classes le ! nat i) y)
      else Inl ValueError)"

subsection \<open>Rows and requests\<close>

text \<open>
  A row of the circuit table, with the columns the row-wise transforms read. The training
  table has in addition the guard fingerprint, the prediction target.
\<close>

record circuit_row =
  guard_bandwidth :: real
  middle_bandwidth :: real
  exit_bandwidth :: real
  circuit_setup_duration :: real
  total_bytes :: real
  guard_country :: string
  middle_country :: string
  exit_country :: string
  middle_fingerprint :: string
  exit_fingerprint :: string

record training_row = circuit_row +
  guard_fingerprint :: string

text \<open>\<^verbatim>\<open>PredictionRequest\<close> of \<^verbatim>\<open>backend/main.py\<close>.\<close>

record PredictionRequest =
  req_exit_fingerprint :: string
  req_exit_country :: string
  req_bandwidth :: real
  req_setup_time :: real
  req_middle_fingerprint :: "string option"
  req_middle_country :: "string option"

text \<open>\<^verbatim>\<open>x if x else d\<close> and \<^verbatim>\<open>x or d\<close> on an optional string: \<^verbatim>\<open>None\<close> and \<^verbatim>\<open>''\<close> are falsy.\<close>

definition or_default :: "string option \<Rightarrow> string \<Rightarrow> string" where
  "or_default x d = (case x of None \<Rightarrow> d | Some s \<Rightarrow> if s = [] then d else s)"

subsection \<open>Row-wise feature engineering\<close>

text \<open>
  The bandwidth, geography and interaction features, which each of the three transforms
  computes from one row. The historical aggregates (\<^verbatim>\<open>prepare_features.py\<close> lines 43 to
  73, constants in \<^verbatim>\<open>backend/main.py\<close> lines 230 to 236) are computed over the whole training
  table and are not part of this model.

  pandas divides floats without raising (a zero denominator gives \<^verbatim>\<open>inf\<close> or \<^verbatim>\<open>NaN\<close>); in HOL
  \<open>x / 0 = 0\<close>. The denominators below are positive whenever the bandwidths are not negative,
  and always on the rows the serving path builds.
\<close>

record row_features =
  bw_ratio_guard_middle :: real
  bw_ratio_guard_exit :: real
  bw_ratio_middle_exit :: real
  bw_total :: real
  bw_min :: real
  bw_max :: real
  bw_std :: real
  same_country_guard_middle :: int
  same_country_guard_exit :: int
  same_country_middle_exit :: int
  all_same_country :: int
  country_diversity :: real
  bw_guard_x_setup :: real
  bw_total_x_bytes :: real

text \<open>\<^verbatim>\<open>.std(axis=1)\<close> over three columns: the sample standard deviation (\<^verbatim>\<open>ddof=1\<close>).\<close>

definition std3 :: "real \<Rightarrow> real \<Rightarrow> real \<Rightarrow> real" where
  "std3 a b c =
     (let m = (a + b + c) / 3 in sqrt (((a - m)\<^sup>2 + (b - m)\<^sup>2 + (c - m)\<^sup>2) / 2))"

text \<open>\<^verbatim>\<open>.astype(int)\<close> and \<^verbatim>\<open>int(...)\<close> of a truth value.\<close>

definition int_of_bool :: "bool \<Rightarrow> int" where
  "int_of_bool b = (if b then 1 else 0)"

text \<open>\<^verbatim>\<open>.nunique(axis=1)\<close> and \<^verbatim>\<open>len(set(...))\<close>: the number of distinct values.\<close>

definition nunique :: "'a list \<Rightarrow> nat" where
  "nunique xs = length (remdups xs)"

text \<open>\<^verbatim>\<open>engineer_features\<close> of \<^verbatim>\<open>scripts/prepare_features.py\<close>, lines 22 to 37 and 96 to 97.\<close>

definition prepare_engineer_features :: "'a circuit_row_scheme \<Rightarrow> row_features" where
  "prepare_engineer_features r =
     (let g = guard_bandwidth r; m = middle_bandwidth r; e = exit_bandwidth r;
          gc = guard_country r; mc = middle_country r; ec = exit_country r;
          total = g + m + e
      in \<lparr> bw_ratio_guard_middle = g / (m + 1),
           bw_ratio_guard_exit = g / (e + 1),
           bw_ratio_middle_exit = m / (e + 1),
           bw_total = total,
           bw_min = min g (min m e),
           bw_max = max g (max m e),
           bw_std = std3 g m e,
           same_country_guard_middle = int_of_bool (gc = mc),
           same_country_guard_exit = int_of_bool (gc = ec),
           same_country_middle_exit = int_of_bool (mc = ec),
           all_same_country = int_of_bool (gc = mc \<and> gc = ec),
           country_diversity = real (nunique [gc, mc, ec]),
           bw_guard_x_setup = g * circuit_setup_duration r,
           bw_total_x_bytes = total * total_bytes r \<rparr>)"

text \<open>The same block of \<^verbatim>\<open>predict_top_k_guards\<close>, \<^verbatim>\<open>scripts/predict_guard.py\<close> lines 52 to 66
  and 74 to 75.\<close>

definition predict_guard_features :: "'a circuit_row_scheme \<Rightarrow> row_features" where
  "predict_guard_features r =
     (let g = guard_bandwidth r; m = middle_bandwidth r; e = exit_bandwidth r;
          gc = guard_country r; mc = middle_country r; ec = exit_country r;
          total = g + m + e
      in \<lparr> bw_ratio_guard_middle = g / (m + 1),
           bw_ratio_guard_exit = g / (e + 1),
           bw_ratio_middle_exit = m / (e + 1),
           bw_total = total,
           bw_min = min g (min m e),
           bw_max = max g (max m e),
           bw_std = std3 g m e,
           same_country_guard_middle = int_of_bool (gc = mc),
           same_country_guard_exit = int_of_bool (gc = ec),
           same_country_middle_exit = int_of_bool (mc = ec),
           all_same_country = int_of_bool (gc = mc \<and> gc = ec),
           country_diversity = real (nunique [gc, mc, ec]),
           bw_guard_x_setup = g * circuit_setup_duration r,
           bw_total_x_bytes = total * total_bytes r \<rparr>)"

text \<open>
  \<^verbatim>\<open>engineer_features\<close> of \<^verbatim>\<open>backend/main.py\<close>. Lines 197 to 208 build the row from the
  request, with fixed values for the unknown guard; lines 213 to 227 and 265 to 266 compute
  the features.
\<close>

definition request_row :: "PredictionRequest \<Rightarrow> circuit_row" where
  "request_row req =
     \<lparr> guard_bandwidth = 85 / 10,
       middle_bandwidth = 7,
       exit_bandwidth = (if req_bandwidth req > 0 then req_bandwidth req else 65 / 10),
       circuit_setup_duration = req_setup_time req,
       total_bytes =
         (if req_bandwidth req > 0 then req_bandwidth req * req_setup_time req * 1000000
          else 10000000),
       guard_country = ''US'',
       middle_country = or_default (req_middle_country req) ''Unknown'',
       exit_country = req_exit_country req,
       middle_fingerprint = or_default (req_middle_fingerprint req) ''UNKNOWN'',
       exit_fingerprint = req_exit_fingerprint req \<rparr>"

definition backend_row_features :: "'a circuit_row_scheme \<Rightarrow> row_features" where
  "backend_row_features r =
     (let g = guard_bandwidth r; m = middle_bandwidth r; e = exit_bandwidth r;
          gc = guard_country r; mc = middle_country r; ec = exit_country r;
          total = g + m + e;
          unique_countries = nunique [gc, mc, ec]
      in \<lparr> bw_ratio_guard_middle = g / (m + 1 / 1000000),
           bw_ratio_guard_exit = g / (e + 1 / 1000000),
           bw_ratio_middle_exit = m / (e + 1 / 1000000),
           bw_total = total,
           bw_min = min g (min m e),
           bw_max = max g (max m e),
           bw_std = std3 g m e,
           same_country_guard_middle = int_of_bool (gc = mc),
           same_country_guard_exit = int_of_bool (gc = ec),
           same_country_middle_exit = int_of_bool (mc = ec),
           all_same_country = int_of_bool (gc = mc \<and> gc = ec),
           country_diversity = real unique_countries / 3,
           bw_guard_x_setup = g * circuit_setup_duration r,
           bw_total_x_bytes = total * total_bytes r \<rparr>)"

definition backend_engineer_features :: "PredictionRequest \<Rightarrow> row_features" where
  "backend_engineer_features req = backend_row_features (request_row req)"

subsection \<open>Categorical encoding on the three paths\<close>

text \<open>The pickled \<^verbatim>\<open>encoders\<close> dictionary: column name to fitted encoder.\<close>

type_synonym encoders = "string \<rightharpoonup> string LabelEncoder"

record encoded_features =
  middle_fingerprint_encoded :: int
  exit_fingerprint_encoded :: int
  guard_country_encoded :: int
  middle_country_encoded :: int
  exit_country_encoded :: int

text \<open>
  Training, \<^verbatim>\<open>prepare_features.py\<close> lines 77 to 89: one encoder per categorical column,
  fitted on that column of the training table, and one for the target.
\<close>

definition prepare_encoders :: "training_row list \<Rightarrow> encoders" where
  "prepare_encoders df =
     [ ''middle_fingerprint'' \<mapsto> fst (fit_transform (map middle_fingerprint df)),
       ''exit_fingerprint'' \<mapsto> fst (fit_transform (map exit_fingerprint df)),
       ''guard_country'' \<mapsto> fst (fit_transform (map guard_country df)),
       ''middle_country'' \<mapsto> fst (fit_transform (map middle_country df)),
       ''exit_country'' \<mapsto> fst (fit_transform (map exit_country df)),
       ''guard_fingerprint'' \<mapsto> fst (fit_transform (map guard_fingerprint df)) ]"

definition guard_label :: "training_row list \<Rightarrow> int list" where
  "guard_label df = snd (fit_transform (map guard_fingerprint df))"

text \<open>
  Serving, \<^verbatim>\<open>backend/main.py\<close> lines 239 to 262: each encoding is wrapped in
  \<^verbatim>\<open>try: ... except: ... = -1\<close>, a bare \<^verbatim>\<open>except\<close> that catches the missing dictionary key, the
  \<^verbatim>\<open>ValueError\<close> of \<^verbatim>\<open>transform\<close> and the \<^verbatim>\<open>IndexError\<close> of \<^verbatim>\<open>[0]\<close> alike.
\<close>

definition backend_encode1 :: "encoders \<Rightarrow> string \<Rightarrow> string \<Rightarrow> int" where
  "backend_encode1 encs col v =
     (case encs col of
        None \<Rightarrow> - 1
      | Some le \<Rightarrow>
          (case transform le [v] of
             Inl _ \<Rightarrow> - 1
           | Inr ys \<Rightarrow> (case ys of [] \<Rightarrow> - 1 | i # _ \<Rightarrow> i)))"

definition backend_encode :: "encoders \<Rightarrow> PredictionRequest \<Rightarrow> encoded_features" where
  "backend_encode encs req =
     \<lparr> middle_fingerprint_encoded =
         backend_encode1 encs ''middle_fingerprint'' (or_default (req_middle_fingerprint req) ''UNKNOWN''),
       exit_fingerprint_encoded =
         backend_encode1 encs ''exit_fingerprint'' (req_exit_fingerprint req),
       guard_country_encoded = backend_encode1 encs ''guard_country'' ''US'',
       middle_country_encoded =
         backend_encode1 encs ''middle_country'' (or_default (req_middle_country req) ''Unknown''),
       exit_country_encoded = backend_encode1 encs ''exit_country'' (req_exit_country req) \<rparr>"

text \<open>
  Inference script, \<^verbatim>\<open>predict_guard.py\<close> lines 69 to 71: for each column in turn the encoder
  is read from the dictionary and the whole column is transformed; nothing is caught.
\<close>

definition predict_guard_encode1 :: "encoders \<Rightarrow> string \<Rightarrow> string list \<Rightarrow> py_error + int list" where
  "predict_guard_encode1 encs col vs =
     (case encs col of None \<Rightarrow> Inl KeyError | Some le \<Rightarrow> transform le vs)"

definition predict_guard_encode ::
  "encoders \<Rightarrow> 'a circuit_row_scheme list \<Rightarrow> py_error + encoded_features list" where
  "predict_guard_encode encs df =
     (case predict_guard_encode1 encs ''middle_fingerprint'' (map middle_fingerprint df) of
        Inl e \<Rightarrow> Inl e
      | Inr mf \<Rightarrow>
     (case predict_guard_encode1 encs ''exit_fingerprint'' (map exit_fingerprint df) of
        Inl e \<Rightarrow> Inl e
      | Inr ef \<Rightarrow>
     (case predict_guard_encode1 encs ''guard_country'' (map guard_country df) of
        Inl e \<Rightarrow> Inl e
      | Inr gc \<Rightarrow>
     (case predict_guard_encode1 encs ''middle_country'' (map middle_country df) of
        Inl e \<Rightarrow> Inl e
      | Inr mc \<Rightarrow>
     (case predict_guard_encode1 encs ''exit_country'' (map exit_country df) of
        Inl e \<Rightarrow> Inl e
      | Inr ec \<Rightarrow>
          Inr (map (\<lambda>i. \<lparr> middle_fingerprint_encoded = mf ! i,
                          exit_fingerprint_encoded = ef ! i,
                          guard_country_encoded = gc ! i,
                          middle_country_encoded = mc ! i,
                          exit_country_encoded = ec ! i \<rparr>) [0..<length df]))))))"

subsection \<open>Top-K extraction\<close>

text \<open>
  \<^verbatim>\<open>np.argsort(row)\<close>: a permutation of the indices of the row that puts its values in
  ascending order. numpy's default sort kind is not stable: where values are equal, the
  order of their indices is whatever the sorting routine leaves, and it need not be the index
  order. The model has to fix one order and takes the index order; this is numpy's result on
  a row of two equal values, and is not claimed for longer rows with equal values. The
  general theorems below use only that the result is a permutation of the indices sorted by
  value (lemmas \<open>set_np_argsort\<close>, \<open>distinct_np_argsort\<close>, \<open>sorted_np_argsort\<close>), so they hold
  for whatever order numpy gives to equal values.
\<close>

definition np_argsort :: "real list \<Rightarrow> nat list" where
  "np_argsort row = sort_key (\<lambda>i. row ! i) [0..<length row]"

text \<open>
  \<^verbatim>\<open>np.argsort(row)[::-1][:k]\<close>, the expression shared by \<^verbatim>\<open>backend/main.py\<close> line 278,
  \<^verbatim>\<open>predict_guard.py\<close> line 88 and \<^verbatim>\<open>train_xgboost.py\<close> line 26.
\<close>

definition top_k_indices :: "real list \<Rightarrow> int \<Rightarrow> nat list" where
  "top_k_indices row k = py_slice_to k (rev (np_argsort row))"

text \<open>\<^verbatim>\<open>GuardPrediction\<close> and \<^verbatim>\<open>get_top_k_predictions\<close> of \<^verbatim>\<open>backend/main.py\<close>.\<close>

record GuardPrediction =
  pred_guard_fingerprint :: string
  pred_guard_nickname :: string
  pred_guard_address :: string
  pred_guard_country :: string
  confidence :: real
  rank :: nat

text \<open>\<^verbatim>\<open>f"GuardNode{idx:03d}"\<close>: the index in decimal, padded with zeros to three digits.\<close>

definition guard_node_name :: "nat \<Rightarrow> string" where
  "guard_node_name idx =
     ''GuardNode'' @ replicate (3 - length (str_nat idx)) CHR ''0'' @ str_nat idx"

type_synonym guard_meta = "string \<rightharpoonup> (string \<rightharpoonup> string)"

fun predictions_loop ::
  "string list \<Rightarrow> guard_meta \<Rightarrow> real list \<Rightarrow> nat \<Rightarrow> nat list \<Rightarrow> py_error + GuardPrediction list" where
  "predictions_loop guard_fingerprints gm row rk [] = Inr []"
| "predictions_loop guard_fingerprints gm row rk (idx # rest) =
     (if length guard_fingerprints \<le> idx then Inl IndexError
      else
        (let guard_fp = guard_fingerprints ! idx;
             meta = (case gm guard_fp of None \<Rightarrow> Map.empty | Some m \<Rightarrow> m);
             p = \<lparr> pred_guard_fingerprint = guard_fp,
                   pred_guard_nickname = or_default (meta ''guard_nickname'') (guard_node_name idx),
                   pred_guard_address = or_default (meta ''guard_address'') ''Unknown'',
                   pred_guard_country = or_default (meta ''guard_country'') ''Unknown'',
                   confidence = row ! idx,
                   rank = rk \<rparr>
         in case predictions_loop guard_fingerprints gm row (Suc rk) rest of
              Inl e \<Rightarrow> Inl e
            | Inr ps \<Rightarrow> Inr (p # ps)))"

definition get_top_k_predictions ::
  "string list \<Rightarrow> guard_meta \<Rightarrow> real list list \<Rightarrow> int \<Rightarrow> py_error + GuardPrediction list" where
  "get_top_k_predictions guard_fingerprints gm probabilities k =
     (case probabilities of
        [] \<Rightarrow> Inl IndexError
      | row # _ \<Rightarrow> predictions_loop guard_fingerprints gm row 1 (top_k_indices row k))"

text \<open>
  The ranking loop of \<^verbatim>\<open>predict_top_k_guards\<close>, \<^verbatim>\<open>predict_guard.py\<close> lines 84 to 98, from the
  probability matrix the classifier returned and the \<^verbatim>\<open>circuit_id\<close> column.
\<close>

record ranked_circuit =
  circuit_id :: string
  top_k_guards :: "string list"
  top_k_probabilities :: "real list"

fun predict_guard_loop ::
  "string LabelEncoder \<Rightarrow> real list list \<Rightarrow> int \<Rightarrow> nat \<Rightarrow> string list \<Rightarrow> py_error + ranked_circuit list" where
  "predict_guard_loop ge probabilities k i [] = Inr []"
| "predict_guard_loop ge probabilities k i (cid # cids) =
     (if length probabilities \<le> i then Inl IndexError
      else
        (let idxs = top_k_indices (probabilities ! i) k;
             probs = map (\<lambda>j. probabilities ! i ! j) idxs
         in case inverse_transform ge (map int idxs) of
              Inl e \<Rightarrow> Inl e
            | Inr guards \<Rightarrow>
                (case predict_guard_loop ge probabilities k (Suc i) cids of
                   Inl e \<Rightarrow> Inl e
                 | Inr rs \<Rightarrow>
                     Inr (\<lparr> circuit_id = cid, top_k_guards = guards,
                            top_k_probabilities = probs \<rparr> # rs))))"

definition predict_guard_rank ::
  "encoders \<Rightarrow> real list list \<Rightarrow> string list \<Rightarrow> int \<Rightarrow> py_error + ranked_circuit list" where
  "predict_guard_rank encs probabilities cids k =
     (case encs ''guard_fingerprint'' of
        None \<Rightarrow> Inl KeyError
      | Some ge \<Rightarrow> predict_guard_loop ge probabilities k 0 cids)"

subsection \<open>Ranking evaluation\<close>

text \<open>\<^verbatim>\<open>np.where(top_k_indices == true_label)[0][0]\<close>: the first position of the label.\<close>

fun np_where_first :: "int \<Rightarrow> nat list \<Rightarrow> py_error + nat" where
  "np_where_first t [] = Inl IndexError"
| "np_where_first t (j # js) =
     (if int j = t then Inr 0
      else (case np_where_first t js of Inl e \<Rightarrow> Inl e | Inr p \<Rightarrow> Inr (Suc p)))"

text \<open>\<^verbatim>\<open>calculate_mrr\<close> of \<^verbatim>\<open>train_xgboost.py\<close>: the loop, then the division by \<^verbatim>\<open>len(y_true)\<close>.\<close>

fun mrr_loop :: "real list list \<Rightarrow> int \<Rightarrow> nat \<Rightarrow> real \<Rightarrow> int list \<Rightarrow> py_error + real" where
  "mrr_loop P k i mrr [] = Inr mrr"
| "mrr_loop P k i mrr (true_label # rest) =
     (if length P \<le> i then Inl IndexError
      else
        (let topk = top_k_indices (P ! i) k
         in if true_label \<in> set (map int topk)
            then (case np_where_first true_label topk of
                    Inl e \<Rightarrow> Inl e
                  | Inr pos \<Rightarrow> mrr_loop P k (Suc i) (mrr + 1 / real (pos + 1)) rest)
            else mrr_loop P k (Suc i) mrr rest))"

definition calculate_mrr :: "int list \<Rightarrow> real list list \<Rightarrow> int \<Rightarrow> py_error + real" where
  "calculate_mrr y_true y_pred_proba k =
     (case mrr_loop y_pred_proba k 0 0 y_true of
        Inl e \<Rightarrow> Inl e
      | Inr mrr \<Rightarrow>
          if length y_true = 0 then Inl ZeroDivisionError
          else Inr (mrr / real (length y_true)))"

text \<open>
  The definition of the specification, for comparison: the reciprocal of the 1-based
  position of the true class in the example's top-K list, 0 when it is not there, and the
  mean of that over the examples. Which list is the top-K list of a row is a parameter, so
  that the mean can be taken over the lists of the code and over the lists of the
  specification.
\<close>

definition reciprocal_rank :: "int \<Rightarrow> nat list \<Rightarrow> real" where
  "reciprocal_rank t topk =
     (if t \<in> set (map int topk)
      then 1 / real (Suc (length (takeWhile (\<lambda>j. int j \<noteq> t) topk)))
      else 0)"

definition mean_reciprocal_rank ::
  "(real list \<Rightarrow> nat list) \<Rightarrow> int list \<Rightarrow> real list list \<Rightarrow> real" where
  "mean_reciprocal_rank top_k_list y P =
     sum_list (map (\<lambda>(t, row). reciprocal_rank t (top_k_list row)) (zip y P))
       / real (length y)"

text \<open>
  \<^verbatim>\<open>np.argmax\<close>: the first index at which the row is maximal; \<^verbatim>\<open>ValueError\<close> on an empty
  row. \<^verbatim>\<open>np.argmax(P, axis=1)\<close> does that for every row.
\<close>

fun argmax_from :: "nat \<Rightarrow> real \<Rightarrow> nat \<Rightarrow> real list \<Rightarrow> nat" where
  "argmax_from best bv i [] = best"
| "argmax_from best bv i (x # xs) =
     (if bv < x then argmax_from i x (Suc i) xs else argmax_from best bv (Suc i) xs)"

definition np_argmax :: "real list \<Rightarrow> py_error + nat" where
  "np_argmax row = (case row of [] \<Rightarrow> Inl ValueError | x # xs \<Rightarrow> Inr (argmax_from 0 x 1 xs))"

fun np_argmax_rows :: "real list list \<Rightarrow> py_error + nat list" where
  "np_argmax_rows [] = Inr []"
| "np_argmax_rows (row # rows) =
     (case np_argmax row of
        Inl e \<Rightarrow> Inl e
      | Inr j \<Rightarrow> (case np_argmax_rows rows of Inl e \<Rightarrow> Inl e | Inr js \<Rightarrow> Inr (j # js)))"

text \<open>
  sklearn's \<^verbatim>\<open>accuracy_score\<close>: the fraction of positions where prediction and label agree;
  \<^verbatim>\<open>ValueError\<close> on inputs of different lengths, and the average over no position is NaN.
\<close>

datatype score = Score real | NaN

definition accuracy_score :: "int list \<Rightarrow> nat list \<Rightarrow> py_error + score" where
  "accuracy_score y_true y_pred =
     (if length y_true \<noteq> length y_pred then Inl ValueError
      else if y_true = [] then Inr NaN
      else Inr (Score (real (length (filter (\<lambda>(t, p). t = int p) (zip y_true y_pred)))
                         / real (length y_true))))"

text \<open>
  \<^verbatim>\<open>evaluate_topk\<close> of \<^verbatim>\<open>train_xgboost.py\<close>. For \<open>k \<noteq> 1\<close> the source calls sklearn's
  \<^verbatim>\<open>top_k_accuracy_score\<close>, which is a parameter here.
\<close>

type_synonym topk_scorer = "int list \<Rightarrow> real list list \<Rightarrow> int \<Rightarrow> py_error + score"

fun evaluate_topk_loop ::
  "topk_scorer \<Rightarrow> int list \<Rightarrow> real list list \<Rightarrow> (string \<rightharpoonup> score) \<Rightarrow> int list
     \<Rightarrow> py_error + (string \<rightharpoonup> score)" where
  "evaluate_topk_loop top_k_accuracy_score y_true P results [] = Inr results"
| "evaluate_topk_loop top_k_accuracy_score y_true P results (k # ks) =
     (case (if k = 1
            then (case np_argmax_rows P of
                    Inl e \<Rightarrow> Inl e
                  | Inr y_pred \<Rightarrow> accuracy_score y_true y_pred)
            else top_k_accuracy_score y_true P k) of
        Inl e \<Rightarrow> Inl e
      | Inr acc \<Rightarrow>
          evaluate_topk_loop top_k_accuracy_score y_true P
            (results(''Top-'' @ str_int k \<mapsto> acc)) ks)"

definition evaluate_topk ::
  "topk_scorer \<Rightarrow> int list \<Rightarrow> real list list \<Rightarrow> int list \<Rightarrow> py_error + (string \<rightharpoonup> score)" where
  "evaluate_topk top_k_accuracy_score y_true P k_values =
     evaluate_topk_loop top_k_accuracy_score y_true P Map.empty k_values"

text \<open>
  The accuracy of the specification, for comparison: the fraction of examples whose true
  class is among the indices the top-K extractor returns for their row.
\<close>

definition extractor_accuracy :: "int list \<Rightarrow> real list list \<Rightarrow> int \<Rightarrow> real" where
  "extractor_accuracy y P k =
     real (length (filter (\<lambda>(t, row). t \<in> set (map int (top_k_indices row k))) (zip y P)))
       / real (length y)"

subsection \<open>Explainability\<close>

text \<open>
  \<^verbatim>\<open>get_feature_importance\<close> of \<^verbatim>\<open>backend/main.py\<close>. \<open>importance_dict\<close> is what the booster
  returns, keyed \<^verbatim>\<open>f0\<close>, \<^verbatim>\<open>f1\<close>, ...; \<open>feature_values\<close> is the one-row table, column name to
  value. The list of dictionaries the loop builds is a list of \<open>raw_importance\<close>.
\<close>

record 'v raw_importance =
  raw_feature :: string
  raw_importance :: real
  raw_value :: 'v

record 'v FeatureImportance =
  feature :: string
  importance :: real
  feature_value :: 'v
  impact :: string

fun collect_importance ::
  "(string \<rightharpoonup> real) \<Rightarrow> (string \<rightharpoonup> 'v) \<Rightarrow> nat \<Rightarrow> string list \<Rightarrow> py_error + 'v raw_importance list" where
  "collect_importance importance_dict feature_values i [] = Inr []"
| "collect_importance importance_dict feature_values i (col # cols) =
     (let imp = (case importance_dict (''f'' @ str_nat i) of None \<Rightarrow> 0 | Some x \<Rightarrow> x)
      in if imp > 0
         then (case feature_values col of
                 None \<Rightarrow> Inl KeyError
               | Some v \<Rightarrow>
                   (case collect_importance importance_dict feature_values (Suc i) cols of
                      Inl e \<Rightarrow> Inl e
                    | Inr rest \<Rightarrow>
                        Inr (\<lparr> raw_feature = col, raw_importance = imp, raw_value = v \<rparr> # rest)))
         else collect_importance importance_dict feature_values (Suc i) cols)"

text \<open>\<^verbatim>\<open>list.sort(key=..., reverse=True)\<close>: stable, equal keys keep their order.\<close>

definition py_sort_reverse :: "('a \<Rightarrow> real) \<Rightarrow> 'a list \<Rightarrow> 'a list" where
  "py_sort_reverse key xs = rev (sort_key key (rev xs))"

definition impact_bucket :: "real \<Rightarrow> string" where
  "impact_bucket n = (if n > 7 / 10 then ''high'' else if n > 4 / 10 then ''medium'' else ''low'')"

text \<open>Lines 320 to 321: the selected features, sorted and cut to \<open>top_n\<close>.\<close>

definition top_features :: "'v raw_importance list \<Rightarrow> int \<Rightarrow> 'v raw_importance list" where
  "top_features feature_importance top_n =
     py_slice_to top_n (py_sort_reverse raw_importance feature_importance)"

text \<open>Line 324: \<^verbatim>\<open>max([...]) if top_features else 1.0\<close>.\<close>

definition max_importance :: "'v raw_importance list \<Rightarrow> real" where
  "max_importance topk =
     (case topk of [] \<Rightarrow> 1 | f # fs \<Rightarrow> fold max (map raw_importance fs) (raw_importance f))"

definition get_feature_importance ::
  "(string \<rightharpoonup> real) \<Rightarrow> string list \<Rightarrow> (string \<rightharpoonup> 'v) \<Rightarrow> int \<Rightarrow> py_error + 'v FeatureImportance list" where
  "get_feature_importance importance_dict feature_columns feature_values top_n =
     (case collect_importance importance_dict feature_values 0 feature_columns of
        Inl e \<Rightarrow> Inl e
      | Inr feature_importance \<Rightarrow>
          (let topk = top_features feature_importance top_n;
               mx = max_importance topk
           in Inr (map (\<lambda>feat.
                     (let normalized_imp = raw_importance feat / mx
                      in \<lparr> feature = raw_feature feat,
                           importance = normalized_imp,
                           feature_value = raw_value feat,
                           impact = impact_bucket normalized_imp \<rparr>)) topk)))"

subsection \<open>Notions used in the statements\<close>

text \<open>
  The top-K list of the specification (section 4.5), for comparison: the class indices in
  descending order of probability, equal probabilities in ascending order of class index,
  cut to the first \<open>k\<close>.
\<close>

definition spec_top_k :: "real list \<Rightarrow> int \<Rightarrow> nat list" where
  "spec_top_k row k = take (nat k) (sort_key (\<lambda>i. (- (row ! i), i)) [0..<length row])"

text \<open>
  The tie-break of the specification, for comparison: among the returned candidates, one
  that has the same probability as a later one has the smaller class index.
\<close>

fun ties_ascending :: "real list \<Rightarrow> nat list \<Rightarrow> bool" where
  "ties_ascending row [] = True"
| "ties_ascending row (i # rest) =
     (list_all (\<lambda>j. if row ! i = row ! j then i < j else True) rest \<and> ties_ascending row rest)"

text \<open>The entry the ranking loop of \<^verbatim>\<open>predict_top_k_guards\<close> writes for row \<open>j\<close>.\<close>

definition ranked_of :: "string LabelEncoder \<Rightarrow> real list list \<Rightarrow> int \<Rightarrow> nat \<Rightarrow> string \<Rightarrow> ranked_circuit" where
  "ranked_of ge P k j cid =
     \<lparr> circuit_id = cid,
       top_k_guards = map (\<lambda>i. classes ge ! i) (top_k_indices (P ! j) k),
       top_k_probabilities = map (\<lambda>i. P ! j ! i) (top_k_indices (P ! j) k) \<rparr>"

text \<open>
  The argmax of the specification, for comparison: the first index at which the row takes
  its greatest value.
\<close>

definition first_maximal_index :: "real list \<Rightarrow> nat" where
  "first_maximal_index row = length (takeWhile (\<lambda>x. x \<noteq> Max (set row)) row)"

text \<open>A row whose greatest value is taken at one index only.\<close>

definition unique_maximum :: "real list \<Rightarrow> bool" where
  "unique_maximum row =
     list_ex (\<lambda>i. list_all (\<lambda>j. j = i \<or> row ! j < row ! i) [0..<length row]) [0..<length row]"

subsection \<open>Concrete inputs\<close>

text \<open>
  A training table of three circuits, a request whose exit country (\<open>JP\<close>) does not occur
  in it, and the row the inference script would read for the same circuit.
\<close>

definition example_training :: "training_row list" where
  "example_training =
     [ \<lparr> guard_bandwidth = 9, middle_bandwidth = 7, exit_bandwidth = 6,
         circuit_setup_duration = 1, total_bytes = 1000,
         guard_country = ''US'', middle_country = ''DE'', exit_country = ''US'',
         middle_fingerprint = ''M1'', exit_fingerprint = ''E1'', guard_fingerprint = ''G1'' \<rparr>,
       \<lparr> guard_bandwidth = 8, middle_bandwidth = 5, exit_bandwidth = 4,
         circuit_setup_duration = 2, total_bytes = 2000,
         guard_country = ''US'', middle_country = ''DE'', exit_country = ''DE'',
         middle_fingerprint = ''M1'', exit_fingerprint = ''E1'', guard_fingerprint = ''G2'' \<rparr>,
       \<lparr> guard_bandwidth = 7, middle_bandwidth = 3, exit_bandwidth = 2,
         circuit_setup_duration = 3, total_bytes = 3000,
         guard_country = ''US'', middle_country = ''DE'', exit_country = ''FR'',
         middle_fingerprint = ''M1'', exit_fingerprint = ''E1'', guard_fingerprint = ''G3'' \<rparr> ]"

definition example_request :: PredictionRequest where
  "example_request =
     \<lparr> req_exit_fingerprint = ''E1'', req_exit_country = ''JP'',
       req_bandwidth = 13 / 2, req_setup_time = 1,
       req_middle_fingerprint = Some ''M1'', req_middle_country = Some ''DE'' \<rparr>"

definition example_row :: circuit_row where
  "example_row =
     \<lparr> guard_bandwidth = 9, middle_bandwidth = 7, exit_bandwidth = 6,
       circuit_setup_duration = 1, total_bytes = 1000,
       guard_country = ''US'', middle_country = ''DE'', exit_country = ''JP'',
       middle_fingerprint = ''M1'', exit_fingerprint = ''E1'' \<rparr>"

section \<open>Properties\<close>

subsection \<open>The label encoder\<close>

lemma class_index_less: "v \<in> set cs \<Longrightarrow> class_index cs v < length cs"
  unfolding class_index_def by (induction cs) auto

lemma class_index_nth: "v \<in> set cs \<Longrightarrow> cs ! class_index cs v = v"
  unfolding class_index_def by (induction cs) auto

lemma class_index_of_nth: "distinct cs \<Longrightarrow> i < length cs \<Longrightarrow> class_index cs (cs ! i) = i"
  unfolding class_index_def
proof (induction cs arbitrary: i)
  case Nil
  then show ?case by simp
next
  case (Cons c cs)
  then show ?case by (cases i) auto
qed

lemma class_index_image: "distinct cs \<Longrightarrow> class_index cs ` set cs = {0..<length cs}"
proof (intro equalityI subsetI)
  fix n assume "n \<in> class_index cs ` set cs"
  then show "n \<in> {0..<length cs}" by (auto simp: class_index_less)
next
  fix n assume d: "distinct cs" and "n \<in> {0..<length cs}"
  then have n: "n < length cs" by simp
  then have "class_index cs (cs ! n) = n" using d by (rule class_index_of_nth[rotated])
  moreover have "cs ! n \<in> set cs" using n by simp
  ultimately show "n \<in> class_index cs ` set cs" by force
qed

lemma classes_fit: "classes (fit y) = sort (remdups y)"
  by (simp add: fit_def)

lemma set_classes_fit: "set (classes (fit y)) = set y"
  by (simp add: classes_fit)

lemma distinct_classes_fit: "distinct (classes (fit y))"
  by (simp add: classes_fit)

lemma sorted_classes_fit: "sorted (classes (fit y))"
  by (simp add: classes_fit)

lemma fit_cong_set: "set y' = set y \<Longrightarrow> fit y' = fit y"
proof -
  assume h: "set y' = set y"
  have "sort (remdups y') = sort (remdups y)"
    by (rule sorted_distinct_set_unique) (simp_all add: h)
  then show ?thesis by (simp add: fit_def)
qed

lemma transform_seen:
  "v \<in> set (classes le) \<Longrightarrow> transform le [v] = Inr [int (class_index (classes le) v)]"
  by (simp add: transform_def)

lemma transform_unseen:
  "v \<in> set y \<Longrightarrow> v \<notin> set (classes le) \<Longrightarrow> transform le y = Inl ValueError"
  by (auto simp: transform_def list_all_iff)

lemma inverse_transform_index:
  "v \<in> set (classes le) \<Longrightarrow> inverse_transform le [int (class_index (classes le) v)] = Inr [v]"
  by (simp add: inverse_transform_def class_index_less class_index_nth)

lemma fit_transform_codes:
  "set (snd (fit_transform y)) = int ` {0..<length (classes (fit y))}"
proof -
  have "set (snd (fit_transform y)) = int ` class_index (classes (fit y)) ` set y"
    by (simp add: fit_transform_def Let_def image_image)
  also have "set y = set (classes (fit y))" by (simp add: set_classes_fit)
  also have "class_index (classes (fit y)) ` set (classes (fit y)) = {0..<length (classes (fit y))}"
    by (rule class_index_image) (rule distinct_classes_fit)
  finally show ?thesis .
qed

text \<open>
  C7. Fitting stores the distinct values of the corpus in ascending order; the codes
  \<^verbatim>\<open>fit_transform\<close> writes are the positions in that list, and together they are exactly
  \<open>0, ..., N - 1\<close>; the encoder depends only on the set of values in the corpus; and every
  value of the corpus is encoded to an index that decodes to it.
\<close>

theorem encoder_round_trip:
  "sorted (classes (fit y)) \<and> distinct (classes (fit y)) \<and> set (classes (fit y)) = set y
   \<and> fit_transform y = (fit y, map (\<lambda>v. int (class_index (classes (fit y)) v)) y)
   \<and> transform (fit y) y = Inr (snd (fit_transform y))
   \<and> set (snd (fit_transform y)) = int ` {0..<length (classes (fit y))}
   \<and> (set y' = set y \<longrightarrow> fit y' = fit y)
   \<and> (\<forall>v \<in> set y. \<exists>i. transform (fit y) [v] = Inr [i] \<and> 0 \<le> i
          \<and> i < int (length (classes (fit y))) \<and> inverse_transform (fit y) [i] = Inr [v])"
proof (intro conjI)
  show "transform (fit y) y = Inr (snd (fit_transform y))"
    by (simp add: transform_def fit_transform_def Let_def list_all_iff set_classes_fit)
  show "\<forall>v \<in> set y. \<exists>i. transform (fit y) [v] = Inr [i] \<and> 0 \<le> i
          \<and> i < int (length (classes (fit y))) \<and> inverse_transform (fit y) [i] = Inr [v]"
  proof
    fix v assume "v \<in> set y"
    then have v: "v \<in> set (classes (fit y))" by (simp add: set_classes_fit)
    show "\<exists>i. transform (fit y) [v] = Inr [i] \<and> 0 \<le> i
          \<and> i < int (length (classes (fit y))) \<and> inverse_transform (fit y) [i] = Inr [v]"
      using transform_seen[OF v] inverse_transform_index[OF v] class_index_less[OF v]
      by auto
  qed
  show "set y' = set y \<longrightarrow> fit y' = fit y"
    by (rule impI) (rule fit_cong_set)
  show "fit_transform y = (fit y, map (\<lambda>v. int (class_index (classes (fit y)) v)) y)"
    by (simp add: fit_transform_def Let_def)
qed (simp_all add: sorted_classes_fit distinct_classes_fit set_classes_fit fit_transform_codes)

theorem encoder_round_trip_witness:
  "set [''DE'', ''US'', ''FR''] = set [''US'', ''DE'', ''FR'', ''US'']
   \<and> fit [''DE'', ''US'', ''FR''] = fit [''US'', ''DE'', ''FR'', ''US'']
   \<and> ''DE'' \<in> set [''US'', ''DE'', ''FR'', ''US'']
   \<and> (\<exists>i. transform (fit [''US'', ''DE'', ''FR'', ''US'']) [''DE''] = Inr [i] \<and> 0 \<le> i
          \<and> i < int (length (classes (fit [''US'', ''DE'', ''FR'', ''US''])))
          \<and> inverse_transform (fit [''US'', ''DE'', ''FR'', ''US'']) [i] = Inr [''DE''])"
proof -
  have s: "set [''DE'', ''US'', ''FR''] = set [''US'', ''DE'', ''FR'', ''US'']" by auto
  have m: "''DE'' \<in> set [''US'', ''DE'', ''FR'', ''US'']" by simp
  note t = encoder_round_trip [of "[''US'', ''DE'', ''FR'', ''US'']" "[''DE'', ''US'', ''FR'']"]
  from t s have "fit [''DE'', ''US'', ''FR''] = fit [''US'', ''DE'', ''FR'', ''US'']" by blast
  moreover from t m have "\<exists>i. transform (fit [''US'', ''DE'', ''FR'', ''US'']) [''DE''] = Inr [i] \<and> 0 \<le> i
          \<and> i < int (length (classes (fit [''US'', ''DE'', ''FR'', ''US''])))
          \<and> inverse_transform (fit [''US'', ''DE'', ''FR'', ''US'']) [i] = Inr [''DE'']" by blast
  ultimately show ?thesis using s m by blast
qed

subsection \<open>Unseen categories on the inference paths\<close>

lemma backend_encode1_unseen:
  "encs col = Some le \<Longrightarrow> v \<notin> set (classes le) \<Longrightarrow> backend_encode1 encs col v = - 1"
  by (simp add: backend_encode1_def transform_def)

lemma backend_encode1_seen:
  "encs col = Some le \<Longrightarrow> v \<in> set (classes le)
     \<Longrightarrow> backend_encode1 encs col v = int (class_index (classes le) v)"
  by (simp add: backend_encode1_def transform_def)

lemma predict_guard_encode1_unseen:
  "encs col = Some le \<Longrightarrow> v \<in> set vs \<Longrightarrow> v \<notin> set (classes le)
     \<Longrightarrow> predict_guard_encode1 encs col vs = Inl ValueError"
  by (simp add: predict_guard_encode1_def transform_unseen)

lemma example_exit_encoder:
  "prepare_encoders example_training ''exit_country'' = Some (fit [''US'', ''DE'', ''FR''])"
  by (simp add: prepare_encoders_def example_training_def fit_transform_def Let_def)

text \<open>
  C3. With the encoders fitted on the example table, the exit country \<open>JP\<close> was never seen.
  The serving path encodes it to \<open>-1\<close>; the inference script raises \<^verbatim>\<open>ValueError\<close> on the
  same circuit, because it calls \<^verbatim>\<open>transform\<close> with nothing around it.
\<close>

theorem unseen_value_on_inference_paths:
  "exit_country_encoded (backend_encode (prepare_encoders example_training) example_request) = - 1
   \<and> predict_guard_encode (prepare_encoders example_training) [example_row] = Inl ValueError"
proof
  have "''JP'' \<notin> set (classes (fit [''US'', ''DE'', ''FR'']))"
    by (simp add: set_classes_fit)
  then show "exit_country_encoded (backend_encode (prepare_encoders example_training) example_request) = - 1"
    by (simp add: backend_encode_def example_request_def
          backend_encode1_unseen[where encs="prepare_encoders example_training"
            and col="''exit_country''", OF example_exit_encoder])
next
  have mf: "predict_guard_encode1 (prepare_encoders example_training) ''middle_fingerprint'' [''M1''] = Inr [0]"
    by (simp add: predict_guard_encode1_def prepare_encoders_def example_training_def
          fit_transform_def Let_def transform_def fit_def class_index_def)
  have ef: "predict_guard_encode1 (prepare_encoders example_training) ''exit_fingerprint'' [''E1''] = Inr [0]"
    by (simp add: predict_guard_encode1_def prepare_encoders_def example_training_def
          fit_transform_def Let_def transform_def fit_def class_index_def)
  have gc: "predict_guard_encode1 (prepare_encoders example_training) ''guard_country'' [''US''] = Inr [0]"
    by (simp add: predict_guard_encode1_def prepare_encoders_def example_training_def
          fit_transform_def Let_def transform_def fit_def class_index_def)
  have mc: "predict_guard_encode1 (prepare_encoders example_training) ''middle_country'' [''DE''] = Inr [0]"
    by (simp add: predict_guard_encode1_def prepare_encoders_def example_training_def
          fit_transform_def Let_def transform_def fit_def class_index_def)
  have ec: "predict_guard_encode1 (prepare_encoders example_training) ''exit_country'' [''JP''] = Inl ValueError"
    by (rule predict_guard_encode1_unseen[where encs="prepare_encoders example_training"
            and col="''exit_country''" and v="''JP''", OF example_exit_encoder])
       (simp_all add: set_classes_fit)
  show "predict_guard_encode (prepare_encoders example_training) [example_row] = Inl ValueError"
    by (simp add: predict_guard_encode_def example_row_def mf ef gc mc ec)
qed

subsection \<open>Feature parity\<close>

lemma nunique3: "nunique [a, b, c] = card {a, b, c}"
  by (simp add: nunique_def card_insert_if)

lemma card3: "card {a, b, c} \<in> {1, 2, 3}"
  by (simp add: card_insert_if)

text \<open>
  C1. The inference script computes the row-wise features exactly as the training transform
  does. The serving transform does not: on the row it builds for any request, the
  guard/middle bandwidth ratio is \<open>8.5 / (7 + 1e-6)\<close> where the training transform gives
  \<open>8.5 / (7 + 1)\<close>, and the country diversity is a third of the training value.
\<close>

theorem serving_features_differ_from_training:
  "predict_guard_features r = prepare_engineer_features r
   \<and> bw_ratio_guard_middle (backend_engineer_features req) = 8500000 / 7000001
   \<and> bw_ratio_guard_middle (prepare_engineer_features (request_row req)) = 17 / 16
   \<and> bw_ratio_guard_middle (backend_engineer_features req)
       \<noteq> bw_ratio_guard_middle (prepare_engineer_features (request_row req))
   \<and> country_diversity (backend_engineer_features req)
       = country_diversity (prepare_engineer_features (request_row req)) / 3
   \<and> country_diversity (backend_engineer_features req)
       \<noteq> country_diversity (prepare_engineer_features (request_row req))"
proof -
  have "card {guard_country (request_row req), middle_country (request_row req),
              exit_country (request_row req)} \<in> {1, 2, 3}"
    by (rule card3)
  then show ?thesis
    by (auto simp add: predict_guard_features_def prepare_engineer_features_def
          backend_engineer_features_def backend_row_features_def Let_def nunique3)
       (simp_all add: request_row_def)
qed

text \<open>
  C4, as the training transform and the inference script have it: the country diversity is
  the number of distinct countries among guard, middle and exit, not divided by anything,
  so one of 1, 2 and 3.
\<close>

theorem country_diversity_is_distinct_count:
  "country_diversity (prepare_engineer_features r)
     = real (card {guard_country r, middle_country r, exit_country r})
   \<and> country_diversity (prepare_engineer_features r) \<in> {1, 2, 3}
   \<and> country_diversity (predict_guard_features r) = country_diversity (prepare_engineer_features r)"
  using card3[of "guard_country r" "middle_country r" "exit_country r"]
  by (auto simp add: prepare_engineer_features_def predict_guard_features_def Let_def nunique3)

text \<open>
  C4 as stated fails on the training transform: three different countries give the
  diversity 3, which is not the count divided by 3 and not in \<open>{1/3, 2/3, 1}\<close>.
\<close>

theorem country_diversity_counterexample:
  "country_diversity (prepare_engineer_features example_row) = 3
   \<and> country_diversity (prepare_engineer_features example_row) \<notin> {1 / 3, 2 / 3, 1}
   \<and> country_diversity (prepare_engineer_features example_row)
       \<noteq> real (card {guard_country example_row, middle_country example_row,
                      exit_country example_row}) / 3"
  by (simp add: prepare_engineer_features_def example_row_def Let_def nunique_def)

subsection \<open>Top-K extraction\<close>

lemma length_py_slice_to:
  "length (py_slice_to k xs)
     = (if 0 \<le> k then min (nat k) (length xs) else length xs - nat (- k))"
  by (simp add: py_slice_to_def min.commute)

lemma upt_add_Suc: "[i..<Suc (i + n)] = i # [Suc i..<Suc (i + n)]"
  by (simp add: upt_conv_Cons del: upt_Suc)

lemma set_py_slice_to: "set (py_slice_to k xs) \<subseteq> set xs"
  by (auto simp: py_slice_to_def dest: in_set_takeD)

lemma distinct_py_slice_to: "distinct xs \<Longrightarrow> distinct (py_slice_to k xs)"
  by (simp add: py_slice_to_def)

lemma sorted_wrt_py_slice_to: "sorted_wrt R xs \<Longrightarrow> sorted_wrt R (py_slice_to k xs)"
  by (simp add: py_slice_to_def sorted_wrt_take)

lemma py_slice_to_map: "py_slice_to k (map f xs) = map f (py_slice_to k xs)"
  by (simp add: py_slice_to_def take_map)

lemma length_np_argsort: "length (np_argsort row) = length row"
  by (simp add: np_argsort_def)

lemma set_np_argsort: "set (np_argsort row) = {0..<length row}"
  by (simp add: np_argsort_def)

lemma distinct_np_argsort: "distinct (np_argsort row)"
  by (simp add: np_argsort_def)

lemma sorted_np_argsort: "sorted (map (\<lambda>i. row ! i) (np_argsort row))"
  by (simp add: np_argsort_def)

lemma length_top_k_indices:
  "length (top_k_indices row k)
     = (if 0 \<le> k then min (nat k) (length row) else length row - nat (- k))"
  by (simp add: top_k_indices_def length_py_slice_to length_np_argsort)

lemma set_top_k_indices: "set (top_k_indices row k) \<subseteq> {0..<length row}"
  using set_py_slice_to[of k "rev (np_argsort row)"]
  by (simp add: top_k_indices_def set_np_argsort)

lemma top_k_indices_less: "j \<in> set (top_k_indices row k) \<Longrightarrow> j < length row"
  using set_top_k_indices[of row k] by auto

lemma distinct_top_k_indices: "distinct (top_k_indices row k)"
  by (simp add: top_k_indices_def distinct_py_slice_to distinct_np_argsort)

lemma sorted_top_k_indices:
  "sorted_wrt (\<ge>) (map (\<lambda>i. row ! i) (top_k_indices row k))"
proof -
  have "sorted_wrt (\<ge>) (rev (map (\<lambda>i. row ! i) (np_argsort row)))"
    using sorted_np_argsort[of row] by (simp add: sorted_wrt_rev)
  then have "sorted_wrt (\<ge>) (py_slice_to k (map (\<lambda>i. row ! i) (rev (np_argsort row))))"
    by (simp add: rev_map sorted_wrt_py_slice_to)
  then show ?thesis by (simp add: top_k_indices_def py_slice_to_map)
qed

lemma predictions_loop_ok:
  "\<forall>j \<in> set idxs. j < length gfs \<Longrightarrow>
   \<exists>ps. predictions_loop gfs gm row rk idxs = Inr ps
        \<and> map confidence ps = map (\<lambda>i. row ! i) idxs
        \<and> map pred_guard_fingerprint ps = map (\<lambda>i. gfs ! i) idxs
        \<and> map rank ps = [rk..<rk + length idxs]"
proof (induction idxs arbitrary: rk)
  case Nil
  then show ?case by simp
next
  case (Cons idx rest)
  then obtain ps where ps: "predictions_loop gfs gm row (Suc rk) rest = Inr ps"
     "map confidence ps = map (\<lambda>i. row ! i) rest"
     "map pred_guard_fingerprint ps = map (\<lambda>i. gfs ! i) rest"
     "map rank ps = [Suc rk..<Suc rk + length rest]"
    by force
  have "idx < length gfs" using Cons.prems by simp
  then show ?case using ps by (simp add: Let_def upt_add_Suc del: upt_Suc)
qed

lemma get_top_k_predictions_ok:
  assumes "length row \<le> length gfs"
  shows "\<exists>ps. get_top_k_predictions gfs gm (row # rows) k = Inr ps
        \<and> map confidence ps = map (\<lambda>i. row ! i) (top_k_indices row k)
        \<and> map pred_guard_fingerprint ps = map (\<lambda>i. gfs ! i) (top_k_indices row k)
        \<and> map rank ps = [1..<Suc (length (top_k_indices row k))]"
proof -
  have "\<forall>j \<in> set (top_k_indices row k). j < length gfs"
    using assms top_k_indices_less[of _ row k] by fastforce
  from predictions_loop_ok[OF this, of gm row 1] show ?thesis
    by (simp add: get_top_k_predictions_def)
qed

lemma inverse_transform_top_k:
  assumes "length row \<le> length (classes ge)"
  shows "inverse_transform ge (map int (top_k_indices row k))
           = Inr (map (\<lambda>i. classes ge ! i) (top_k_indices row k))"
proof -
  have "\<forall>j \<in> set (top_k_indices row k). j < length (classes ge)"
    using assms top_k_indices_less[of _ row k] by fastforce
  then show ?thesis
    by (simp add: inverse_transform_def list_all_iff comp_def)
qed

lemma predict_guard_loop_ok:
  "i + length cids \<le> length P \<Longrightarrow> \<forall>row \<in> set P. length row \<le> length (classes ge) \<Longrightarrow>
   predict_guard_loop ge P k i cids
     = Inr (map (\<lambda>(j, cid). ranked_of ge P k j cid) (zip [i..<i + length cids] cids))"
proof (induction cids arbitrary: i)
  case Nil
  then show ?case by simp
next
  case (Cons cid cids)
  have i: "i < length P" using Cons.prems(1) by simp
  then have "length (P ! i) \<le> length (classes ge)" using Cons.prems(2) by simp
  note inv = inverse_transform_top_k[OF this, of k]
  have "Suc i + length cids \<le> length P" using Cons.prems(1) by simp
  note ih = Cons.IH[OF this Cons.prems(2)]
  show ?case using i by (simp add: Let_def inv ih ranked_of_def upt_add_Suc del: upt_Suc)
qed

lemma predict_guard_rank_ok:
  assumes "encs ''guard_fingerprint'' = Some ge" and "length cids \<le> length P"
    and "\<forall>row \<in> set P. length row \<le> length (classes ge)"
  shows "predict_guard_rank encs P cids k
     = Inr (map (\<lambda>(j, cid). ranked_of ge P k j cid) (zip [0..<length cids] cids))"
  using predict_guard_loop_ok[of 0 cids P ge k] assms
  by (simp add: predict_guard_rank_def)

text \<open>
  C2, without the tie-break. For \<open>k \<ge> 1\<close> the extractor returns \<open>min k n\<close> distinct class
  indices of the row, in non-increasing order of probability. \<^verbatim>\<open>get_top_k_predictions\<close>
  (when the fingerprint table covers the classes) and the ranking loop of the inference script
  (when the guard encoder covers them) return exactly these, with ranks \<open>1, 2, ...\<close>.
  Candidates of equal probability come in the order the reversed \<^verbatim>\<open>argsort\<close> leaves them.
\<close>

theorem top_k_extraction:
  assumes "1 \<le> k"
  shows "length (top_k_indices row k) = min (nat k) (length row)
   \<and> sorted_wrt (\<ge>) (map (\<lambda>i. row ! i) (top_k_indices row k))
   \<and> distinct (top_k_indices row k) \<and> set (top_k_indices row k) \<subseteq> {0..<length row}
   \<and> (length row \<le> length gfs \<longrightarrow>
        (\<exists>ps. get_top_k_predictions gfs gm (row # rows) k = Inr ps
           \<and> length ps = min (nat k) (length row)
           \<and> sorted_wrt (\<ge>) (map confidence ps)
           \<and> map rank ps = [1..<Suc (length ps)]
           \<and> map pred_guard_fingerprint ps = map (\<lambda>i. gfs ! i) (top_k_indices row k)))
   \<and> (encs ''guard_fingerprint'' = Some ge \<and> length cids \<le> length P
        \<and> (\<forall>r \<in> set P. length r \<le> length (classes ge)) \<longrightarrow>
        (\<exists>rs. predict_guard_rank encs P cids k = Inr rs \<and> length rs = length cids
           \<and> (\<forall>j < length cids.
                 top_k_probabilities (rs ! j) = map (\<lambda>i. P ! j ! i) (top_k_indices (P ! j) k)
               \<and> length (top_k_probabilities (rs ! j)) = min (nat k) (length (P ! j))
               \<and> length (top_k_guards (rs ! j)) = min (nat k) (length (P ! j))
               \<and> sorted_wrt (\<ge>) (top_k_probabilities (rs ! j)))))"
proof -
  have len: "length (top_k_indices r k) = min (nat k) (length r)" for r
    using assms by (simp add: length_top_k_indices)
  have A: "length row \<le> length gfs \<longrightarrow>
        (\<exists>ps. get_top_k_predictions gfs gm (row # rows) k = Inr ps
           \<and> length ps = min (nat k) (length row)
           \<and> sorted_wrt (\<ge>) (map confidence ps)
           \<and> map rank ps = [1..<Suc (length ps)]
           \<and> map pred_guard_fingerprint ps = map (\<lambda>i. gfs ! i) (top_k_indices row k))"
  proof
    assume "length row \<le> length gfs"
    from get_top_k_predictions_ok[OF this, of gm rows k]
    obtain ps where ps: "get_top_k_predictions gfs gm (row # rows) k = Inr ps"
      "map confidence ps = map (\<lambda>i. row ! i) (top_k_indices row k)"
      "map pred_guard_fingerprint ps = map (\<lambda>i. gfs ! i) (top_k_indices row k)"
      "map rank ps = [1..<Suc (length (top_k_indices row k))]"
      by blast
    have l: "length ps = length (top_k_indices row k)"
      using ps(2) by (metis length_map)
    show "\<exists>ps. get_top_k_predictions gfs gm (row # rows) k = Inr ps
           \<and> length ps = min (nat k) (length row)
           \<and> sorted_wrt (\<ge>) (map confidence ps)
           \<and> map rank ps = [1..<Suc (length ps)]
           \<and> map pred_guard_fingerprint ps = map (\<lambda>i. gfs ! i) (top_k_indices row k)"
      using ps l len[of row] sorted_top_k_indices[of row k] by auto
  qed
  have B: "encs ''guard_fingerprint'' = Some ge \<and> length cids \<le> length P
        \<and> (\<forall>r \<in> set P. length r \<le> length (classes ge)) \<longrightarrow>
        (\<exists>rs. predict_guard_rank encs P cids k = Inr rs \<and> length rs = length cids
           \<and> (\<forall>j < length cids.
                 top_k_probabilities (rs ! j) = map (\<lambda>i. P ! j ! i) (top_k_indices (P ! j) k)
               \<and> length (top_k_probabilities (rs ! j)) = min (nat k) (length (P ! j))
               \<and> length (top_k_guards (rs ! j)) = min (nat k) (length (P ! j))
               \<and> sorted_wrt (\<ge>) (top_k_probabilities (rs ! j))))"
  proof
    assume h: "encs ''guard_fingerprint'' = Some ge \<and> length cids \<le> length P
        \<and> (\<forall>r \<in> set P. length r \<le> length (classes ge))"
    then have eq: "predict_guard_rank encs P cids k
       = Inr (map (\<lambda>(j, cid). ranked_of ge P k j cid) (zip [0..<length cids] cids))"
      using predict_guard_rank_ok[of encs ge cids P k] by blast
    show "\<exists>rs. predict_guard_rank encs P cids k = Inr rs \<and> length rs = length cids
           \<and> (\<forall>j < length cids.
                 top_k_probabilities (rs ! j) = map (\<lambda>i. P ! j ! i) (top_k_indices (P ! j) k)
               \<and> length (top_k_probabilities (rs ! j)) = min (nat k) (length (P ! j))
               \<and> length (top_k_guards (rs ! j)) = min (nat k) (length (P ! j))
               \<and> sorted_wrt (\<ge>) (top_k_probabilities (rs ! j)))"
      unfolding eq
      by (simp add: ranked_of_def len sorted_top_k_indices)
  qed
  show ?thesis
    using len[of row] sorted_top_k_indices[of row k] distinct_top_k_indices[of row k]
      set_top_k_indices[of row k] A B by blast
qed

theorem top_k_extraction_witness:
  "(1::int) \<le> 2
   \<and> length [1 / 10, 7 / 10, 1 / 5 :: real] \<le> length [''A'', ''B'', ''C'']
   \<and> length (top_k_indices [1 / 10, 7 / 10, 1 / 5] 2) = 2
   \<and> sorted_wrt (\<ge>) (map (\<lambda>i. [1 / 10, 7 / 10, 1 / 5 :: real] ! i) (top_k_indices [1 / 10, 7 / 10, 1 / 5] 2))
   \<and> (\<exists>ps. get_top_k_predictions [''A'', ''B'', ''C''] Map.empty [[1 / 10, 7 / 10, 1 / 5]] 2 = Inr ps
          \<and> length ps = 2 \<and> sorted_wrt (\<ge>) (map confidence ps))
   \<and> [''guard_fingerprint'' \<mapsto> LabelEncoder [''A'', ''B'', ''C'']] ''guard_fingerprint''
        = Some (LabelEncoder [''A'', ''B'', ''C''])
   \<and> (\<exists>rs. predict_guard_rank [''guard_fingerprint'' \<mapsto> LabelEncoder [''A'', ''B'', ''C'']]
               [[1 / 10, 7 / 10, 1 / 5]] [''c1''] 2 = Inr rs
          \<and> length rs = 1
          \<and> length (top_k_guards (rs ! 0)) = 2
          \<and> sorted_wrt (\<ge>) (top_k_probabilities (rs ! 0)))"
proof -
  have k: "(1::int) \<le> 2" by simp
  note t = top_k_extraction [OF k, of "[1 / 10, 7 / 10, 1 / 5]" "[''A'', ''B'', ''C'']" Map.empty "[]"
      "[''guard_fingerprint'' \<mapsto> LabelEncoder [''A'', ''B'', ''C'']]"
      "LabelEncoder [''A'', ''B'', ''C'']" "[''c1'']" "[[1 / 10, 7 / 10, 1 / 5]]"]
  show ?thesis using t by (auto simp add: eval_nat_numeral)
qed

text \<open>
  C2 as stated fails on a tie: on the row \<open>[0.5, 0.5]\<close> class 1 is returned before class 0.
\<close>

theorem top_k_ties_counterexample:
  "top_k_indices [1 / 2, 1 / 2] 2 = [1, 0]
   \<and> \<not> ties_ascending [1 / 2, 1 / 2] (top_k_indices [1 / 2, 1 / 2] 2)"
  by (simp add: top_k_indices_def np_argsort_def py_slice_to_def upt_rec)

text \<open>
  C8 as stated fails: with \<open>k = -1\<close> and three classes \<^verbatim>\<open>get_top_k_predictions\<close> returns two
  ranked predictions, and with \<open>k = 0\<close> an empty list; no error either time.
\<close>

theorem nonpositive_k_counterexample:
  "get_top_k_predictions [''A'', ''B'', ''C''] Map.empty [[1 / 10, 7 / 10, 1 / 5]] (- 1)
     = Inr [ \<lparr> pred_guard_fingerprint = ''B'', pred_guard_nickname = ''GuardNode001'',
               pred_guard_address = ''Unknown'', pred_guard_country = ''Unknown'',
               confidence = 7 / 10, rank = 1 \<rparr>,
             \<lparr> pred_guard_fingerprint = ''C'', pred_guard_nickname = ''GuardNode002'',
               pred_guard_address = ''Unknown'', pred_guard_country = ''Unknown'',
               confidence = 1 / 5, rank = 2 \<rparr> ]
   \<and> get_top_k_predictions [''A'', ''B'', ''C''] Map.empty [[1 / 10, 7 / 10, 1 / 5]] 0 = Inr []"
  by (simp add: get_top_k_predictions_def top_k_indices_def np_argsort_def py_slice_to_def
        upt_rec or_default_def guard_node_name_def str_nat.simps digit_char_def
        eval_nat_numeral)

lemma predictions_loop_take:
  "predictions_loop gfs gm row rk idxs = Inr ps \<Longrightarrow>
   predictions_loop gfs gm row rk (take m idxs) = Inr (take m ps)"
proof (induction idxs arbitrary: rk m ps)
  case Nil
  then show ?case by simp
next
  case (Cons idx rest)
  show ?case
  proof (cases m)
    case 0
    then show ?thesis by simp
  next
    case (Suc m')
    from Cons.prems obtain ps' where ps': "predictions_loop gfs gm row (Suc rk) rest = Inr ps'"
      by (auto simp add: Let_def split: if_splits sum.splits)
    from Cons.IH[OF ps', of m'] Cons.prems ps' show ?thesis
      by (auto simp add: Suc Let_def split: if_splits)
  qed
qed

lemma top_k_indices_full: "top_k_indices row (int (length row)) = rev (np_argsort row)"
  by (simp add: top_k_indices_def py_slice_to_def length_np_argsort)

lemma length_top_k_indices_full: "length (top_k_indices row (int (length row))) = length row"
  by (simp add: top_k_indices_full length_np_argsort)

lemma top_k_indices_nonpositive:
  assumes "k \<le> 0"
  shows "top_k_indices row k
     = take (if k = 0 then 0 else length row - nat (- k)) (top_k_indices row (int (length row)))"
  using assms
  by (simp add: top_k_indices_full) (simp add: top_k_indices_def py_slice_to_def length_np_argsort)

text \<open>
  C8, as the code has it. Neither extractor checks \<open>k\<close>: for \<open>k \<le> 0\<close> both return
  normally. What they return is the full ranking of the row (the one for \<open>k = n\<close>) cut to its
  first \<open>n - |k|\<close> candidates when \<open>k < 0\<close>, that is without its last \<open>|k|\<close> candidates, and no
  candidate when \<open>k = 0\<close> (the slice \<^verbatim>\<open>[:k]\<close>).
\<close>

theorem nonpositive_k_not_rejected:
  assumes "k \<le> 0"
  shows "top_k_indices row k
           = take (if k = 0 then 0 else length row - nat (- k))
               (top_k_indices row (int (length row)))
   \<and> (length row \<le> length gfs \<longrightarrow>
        (\<exists>ps full. get_top_k_predictions gfs gm (row # rows) k = Inr ps
           \<and> get_top_k_predictions gfs gm (row # rows) (int (length row)) = Inr full
           \<and> length full = length row
           \<and> ps = take (if k = 0 then 0 else length row - nat (- k)) full
           \<and> length ps = (if k = 0 then 0 else length row - nat (- k))))
   \<and> (encs ''guard_fingerprint'' = Some ge \<and> length cids \<le> length P
        \<and> (\<forall>r \<in> set P. length r \<le> length (classes ge)) \<longrightarrow>
        (\<exists>rs. predict_guard_rank encs P cids k = Inr rs \<and> length rs = length cids
           \<and> (\<forall>j < length cids.
                 circuit_id (rs ! j) = cids ! j
               \<and> top_k_guards (rs ! j)
                   = take (if k = 0 then 0 else length (P ! j) - nat (- k))
                       (map (\<lambda>i. classes ge ! i) (top_k_indices (P ! j) (int (length (P ! j)))))
               \<and> top_k_probabilities (rs ! j)
                   = take (if k = 0 then 0 else length (P ! j) - nat (- k))
                       (map (\<lambda>i. P ! j ! i) (top_k_indices (P ! j) (int (length (P ! j)))))
               \<and> length (top_k_guards (rs ! j)) = (if k = 0 then 0 else length (P ! j) - nat (- k))
               \<and> length (top_k_probabilities (rs ! j)) = (if k = 0 then 0 else length (P ! j) - nat (- k)))))"
proof -
  have len: "length (top_k_indices r k) = (if k = 0 then 0 else length r - nat (- k))" for r
    using assms by (simp add: length_top_k_indices)
  have tk: "top_k_indices r k
           = take (if k = 0 then 0 else length r - nat (- k)) (top_k_indices r (int (length r)))" for r
    by (rule top_k_indices_nonpositive[OF assms])
  have A: "length row \<le> length gfs \<longrightarrow>
        (\<exists>ps full. get_top_k_predictions gfs gm (row # rows) k = Inr ps
           \<and> get_top_k_predictions gfs gm (row # rows) (int (length row)) = Inr full
           \<and> length full = length row
           \<and> ps = take (if k = 0 then 0 else length row - nat (- k)) full
           \<and> length ps = (if k = 0 then 0 else length row - nat (- k)))"
  proof
    assume "length row \<le> length gfs"
    from get_top_k_predictions_ok[OF this, of gm rows "int (length row)"]
    obtain full where full: "get_top_k_predictions gfs gm (row # rows) (int (length row)) = Inr full"
      "map confidence full = map (\<lambda>i. row ! i) (top_k_indices row (int (length row)))"
      by blast
    have "length (map confidence full) = length row"
      unfolding full(2) by (simp add: length_top_k_indices_full)
    then have lf: "length full = length row" by simp
    have "predictions_loop gfs gm row 1 (top_k_indices row (int (length row))) = Inr full"
      using full(1) by (simp add: get_top_k_predictions_def)
    from predictions_loop_take[OF this, of "if k = 0 then 0 else length row - nat (- k)"]
    have ps: "get_top_k_predictions gfs gm (row # rows) k
        = Inr (take (if k = 0 then 0 else length row - nat (- k)) full)"
      using tk[of row] by (simp add: get_top_k_predictions_def)
    show "\<exists>ps full. get_top_k_predictions gfs gm (row # rows) k = Inr ps
           \<and> get_top_k_predictions gfs gm (row # rows) (int (length row)) = Inr full
           \<and> length full = length row
           \<and> ps = take (if k = 0 then 0 else length row - nat (- k)) full
           \<and> length ps = (if k = 0 then 0 else length row - nat (- k))"
      using ps full(1) lf by auto
  qed
  have B: "encs ''guard_fingerprint'' = Some ge \<and> length cids \<le> length P
        \<and> (\<forall>r \<in> set P. length r \<le> length (classes ge)) \<longrightarrow>
        (\<exists>rs. predict_guard_rank encs P cids k = Inr rs \<and> length rs = length cids
           \<and> (\<forall>j < length cids.
                 circuit_id (rs ! j) = cids ! j
               \<and> top_k_guards (rs ! j)
                   = take (if k = 0 then 0 else length (P ! j) - nat (- k))
                       (map (\<lambda>i. classes ge ! i) (top_k_indices (P ! j) (int (length (P ! j)))))
               \<and> top_k_probabilities (rs ! j)
                   = take (if k = 0 then 0 else length (P ! j) - nat (- k))
                       (map (\<lambda>i. P ! j ! i) (top_k_indices (P ! j) (int (length (P ! j)))))
               \<and> length (top_k_guards (rs ! j)) = (if k = 0 then 0 else length (P ! j) - nat (- k))
               \<and> length (top_k_probabilities (rs ! j)) = (if k = 0 then 0 else length (P ! j) - nat (- k))))"
  proof
    assume h: "encs ''guard_fingerprint'' = Some ge \<and> length cids \<le> length P
        \<and> (\<forall>r \<in> set P. length r \<le> length (classes ge))"
    then have eq: "predict_guard_rank encs P cids k
       = Inr (map (\<lambda>(j, cid). ranked_of ge P k j cid) (zip [0..<length cids] cids))"
      using predict_guard_rank_ok[of encs ge cids P k] by blast
    have g: "map (\<lambda>i. classes ge ! i) (top_k_indices r k)
        = take (if k = 0 then 0 else length r - nat (- k))
            (map (\<lambda>i. classes ge ! i) (top_k_indices r (int (length r))))" for r
      by (subst tk[of r]) (simp only: take_map)
    have q: "map (\<lambda>i. r ! i) (top_k_indices r k)
        = take (if k = 0 then 0 else length r - nat (- k))
            (map (\<lambda>i. r ! i) (top_k_indices r (int (length r))))" for r :: "real list"
      by (subst tk[of r]) (simp only: take_map)
    show "\<exists>rs. predict_guard_rank encs P cids k = Inr rs \<and> length rs = length cids
           \<and> (\<forall>j < length cids.
                 circuit_id (rs ! j) = cids ! j
               \<and> top_k_guards (rs ! j)
                   = take (if k = 0 then 0 else length (P ! j) - nat (- k))
                       (map (\<lambda>i. classes ge ! i) (top_k_indices (P ! j) (int (length (P ! j)))))
               \<and> top_k_probabilities (rs ! j)
                   = take (if k = 0 then 0 else length (P ! j) - nat (- k))
                       (map (\<lambda>i. P ! j ! i) (top_k_indices (P ! j) (int (length (P ! j)))))
               \<and> length (top_k_guards (rs ! j)) = (if k = 0 then 0 else length (P ! j) - nat (- k))
               \<and> length (top_k_probabilities (rs ! j)) = (if k = 0 then 0 else length (P ! j) - nat (- k)))"
      unfolding eq by (simp add: ranked_of_def len g q length_top_k_indices_full)
  qed
  show ?thesis using tk[of row] A B by blast
qed

theorem nonpositive_k_not_rejected_witness:
  "(- 1 :: int) \<le> 0
   \<and> length [1 / 10, 7 / 10, 1 / 5 :: real] \<le> length [''A'', ''B'', ''C'']
   \<and> top_k_indices [1 / 10, 7 / 10, 1 / 5] (- 1) = take 2 (top_k_indices [1 / 10, 7 / 10, 1 / 5] 3)
   \<and> (\<exists>ps full. get_top_k_predictions [''A'', ''B'', ''C''] Map.empty [[1 / 10, 7 / 10, 1 / 5]] (- 1) = Inr ps
          \<and> get_top_k_predictions [''A'', ''B'', ''C''] Map.empty [[1 / 10, 7 / 10, 1 / 5]] 3 = Inr full
          \<and> ps = take 2 full \<and> length ps = 2)
   \<and> [''guard_fingerprint'' \<mapsto> LabelEncoder [''A'', ''B'', ''C'']] ''guard_fingerprint''
        = Some (LabelEncoder [''A'', ''B'', ''C''])
   \<and> (\<exists>rs. predict_guard_rank [''guard_fingerprint'' \<mapsto> LabelEncoder [''A'', ''B'', ''C'']]
               [[1 / 10, 7 / 10, 1 / 5]] [''c1''] (- 1) = Inr rs
          \<and> length rs = 1
          \<and> top_k_guards (rs ! 0)
              = take 2 (map (\<lambda>i. [''A'', ''B'', ''C''] ! i) (top_k_indices [1 / 10, 7 / 10, 1 / 5] 3))
          \<and> length (top_k_guards (rs ! 0)) = 2)"
proof -
  have k: "(- 1 :: int) \<le> 0" by simp
  note t = nonpositive_k_not_rejected [OF k, of "[1 / 10, 7 / 10, 1 / 5]" "[''A'', ''B'', ''C'']" Map.empty "[]"
      "[''guard_fingerprint'' \<mapsto> LabelEncoder [''A'', ''B'', ''C'']]"
      "LabelEncoder [''A'', ''B'', ''C'']" "[''c1'']" "[[1 / 10, 7 / 10, 1 / 5]]"]
  show ?thesis using t by (auto simp add: eval_nat_numeral)
qed

subsection \<open>Mean reciprocal rank\<close>

lemma np_where_first_eq:
  "t \<in> set (map int topk) \<Longrightarrow>
   np_where_first t topk = Inr (length (takeWhile (\<lambda>j. int j \<noteq> t) topk))"
  by (induction topk) auto

lemma mrr_loop_step:
  assumes "i < length P"
  shows "mrr_loop P k i acc (t # ts)
     = mrr_loop P k (Suc i) (acc + reciprocal_rank t (top_k_indices (P ! i) k)) ts"
proof (cases "t \<in> set (map int (top_k_indices (P ! i) k))")
  case True
  then show ?thesis
    using assms np_where_first_eq[OF True]
    by (simp add: Let_def reciprocal_rank_def)
next
  case False
  then show ?thesis using assms by (simp add: Let_def reciprocal_rank_def)
qed

lemma mrr_loop_sum:
  "i + length ys \<le> length P \<Longrightarrow>
   mrr_loop P k i acc ys
     = Inr (acc + sum_list (map (\<lambda>(t, row). reciprocal_rank t (top_k_indices row k))
                              (zip ys (drop i P))))"
proof (induction ys arbitrary: i acc)
  case Nil
  then show ?case by simp
next
  case (Cons t ts)
  have i: "i < length P" using Cons.prems by simp
  have d: "drop i P = P ! i # drop (Suc i) P"
    using i by (simp add: Cons_nth_drop_Suc)
  have "Suc i + length ts \<le> length P" using Cons.prems by simp
  from Cons.IH[OF this] show ?case
    by (simp add: mrr_loop_step[OF i] d del: mrr_loop.simps)
qed

lemma calculate_mrr_eq:
  assumes "y \<noteq> []" and "length y \<le> length P"
  shows "calculate_mrr y P k = Inr (mean_reciprocal_rank (\<lambda>row. top_k_indices row k) y P)"
  using assms mrr_loop_sum[of 0 y P k 0]
  by (simp add: calculate_mrr_def mean_reciprocal_rank_def)

lemma reciprocal_rank_bounds: "0 \<le> reciprocal_rank t topk \<and> reciprocal_rank t topk \<le> 1"
  by (simp add: reciprocal_rank_def)

lemma reciprocal_rank_eq_0: "reciprocal_rank t topk = 0 \<longleftrightarrow> t \<notin> set (map int topk)"
  by (simp add: reciprocal_rank_def)

lemma reciprocal_rank_eq_1:
  "reciprocal_rank t topk = 1 \<longleftrightarrow> topk \<noteq> [] \<and> int (hd topk) = t"
proof (cases topk)
  case Nil
  then show ?thesis by (simp add: reciprocal_rank_def)
next
  case (Cons j js)
  show ?thesis
  proof (cases "int j = t")
    case True
    then show ?thesis using Cons by (simp add: reciprocal_rank_def)
  next
    case False
    then show ?thesis using Cons by (auto simp add: reciprocal_rank_def)
  qed
qed

lemma sum_list_unit_bounds:
  fixes xs :: "real list"
  assumes "\<forall>x \<in> set xs. 0 \<le> x \<and> x \<le> 1"
  shows "0 \<le> sum_list xs \<and> sum_list xs \<le> real (length xs)"
  using assms by (induction xs) auto

lemma sum_list_unit_eq_0:
  fixes xs :: "real list"
  assumes "\<forall>x \<in> set xs. 0 \<le> x \<and> x \<le> 1"
  shows "sum_list xs = 0 \<longleftrightarrow> (\<forall>x \<in> set xs. x = 0)"
  using assms by (simp add: sum_list_nonneg_eq_0_iff)

lemma sum_list_unit_eq_length:
  fixes xs :: "real list"
  assumes "\<forall>x \<in> set xs. 0 \<le> x \<and> x \<le> 1"
  shows "sum_list xs = real (length xs) \<longleftrightarrow> (\<forall>x \<in> set xs. x = 1)"
  using assms
proof (induction xs)
  case Nil
  then show ?case by simp
next
  case (Cons x xs)
  then have b: "0 \<le> sum_list xs \<and> sum_list xs \<le> real (length xs)"
    using sum_list_unit_bounds[of xs] by simp
  have x: "0 \<le> x \<and> x \<le> 1" using Cons.prems by simp
  have ih: "sum_list xs = real (length xs) \<longleftrightarrow> (\<forall>x \<in> set xs. x = 1)"
    using Cons by simp
  show ?case using b x ih by auto
qed

lemma reciprocal_ranks_set:
  assumes "length P = length y"
  shows "set (map (\<lambda>(t, row). reciprocal_rank t (top_k_indices row k)) (zip y P))
     = (\<lambda>i. reciprocal_rank (y ! i) (top_k_indices (P ! i) k)) ` {..<length y}"
  using assms by (auto simp add: set_zip image_iff) 

lemma py_slice_to_take:
  "py_slice_to k xs = take (if 0 \<le> k then nat k else length xs - nat (- k)) xs"
  by (simp add: py_slice_to_def)

lemma sorted_wrt_take_drop:
  assumes "sorted_wrt R xs" and "a \<in> set (take m xs)" and "b \<in> set (drop m xs)"
  shows "R a b"
proof -
  have "sorted_wrt R (take m xs @ drop m xs)" using assms(1) by simp
  then show ?thesis using assms(2,3) unfolding sorted_wrt_append by blast
qed

lemma top_k_indices_most_probable:
  assumes "a \<in> set (top_k_indices row k)" and "b < length row"
    and "b \<notin> set (top_k_indices row k)"
  shows "row ! b \<le> row ! a"
proof -
  define A where "A = rev (np_argsort row)"
  define m where "m = (if 0 \<le> k then nat k else length A - nat (- k))"
  have t: "top_k_indices row k = take m A"
    by (simp add: top_k_indices_def py_slice_to_take A_def m_def)
  have "b \<in> set A" using assms(2) by (simp add: A_def set_np_argsort)
  then have "b \<in> set (take m A) \<union> set (drop m A)"
    by (metis append_take_drop_id set_append)
  then have b: "b \<in> set (drop m A)" using assms(3) t by simp
  have a: "a \<in> set (take m A)" using assms(1) t by simp
  have "sorted_wrt (\<lambda>i j. row ! j \<le> row ! i) A"
    using sorted_np_argsort[of row]
    by (simp add: A_def sorted_wrt_rev sorted_wrt_map)
  from sorted_wrt_take_drop[OF this a b] show ?thesis .
qed

lemma sorted_map_fst:
  fixes f :: "'a \<Rightarrow> real \<times> nat"
  shows "sorted (map f xs) \<Longrightarrow> sorted (map (\<lambda>x. fst (f x)) xs)"
  by (induction xs) (auto simp add: less_eq_prod_def)

lemma distinct_row_inj:
  fixes row :: "real list"
  shows "distinct row \<Longrightarrow> inj_on (\<lambda>i. - (row ! i)) {0..<length row}"
proof (rule inj_onI)
  fix x y assume d: "distinct row" and "x \<in> {0..<length row}" and "y \<in> {0..<length row}"
    and "- (row ! x) = - (row ! y)"
  then have "x < length row" "y < length row" "row ! x = row ! y" by simp_all
  then show "x = y" using d by (simp add: nth_eq_iff_index_eq)
qed

lemma sorted_by_key_unique:
  fixes g :: "nat \<Rightarrow> real"
  assumes "inj_on g S" and "set xs = S" and "set ys = S" and "distinct xs" and "distinct ys"
    and "sorted (map g xs)" and "sorted (map g ys)"
  shows "xs = ys"
proof -
  have "map g xs = map g ys"
  proof (rule sorted_distinct_set_unique)
    show "distinct (map g xs)" using assms(1,2,4) by (simp add: distinct_map)
    show "distinct (map g ys)" using assms(1,3,5) by (simp add: distinct_map)
    show "set (map g xs) = set (map g ys)" using assms(2,3) by simp
  qed (use assms in auto)
  moreover have "inj_on g (set xs \<union> set ys)" using assms(1,2,3) by simp
  ultimately show ?thesis by (simp add: inj_on_map_eq_map)
qed

text \<open>
  On a row whose probabilities are pairwise different, the list of the code is the list of
  the specification.
\<close>

lemma spec_top_k_eq_top_k_indices:
  assumes "distinct row" and "0 \<le> k"
  shows "spec_top_k row k = top_k_indices row k"
proof -
  define g where "g = (\<lambda>i. - (row ! i))"
  define A where "A = rev (np_argsort row)"
  define B where "B = sort_key (\<lambda>i. (- (row ! i), i)) [0..<length row]"
  have inj: "inj_on g {0..<length row}" unfolding g_def by (rule distinct_row_inj[OF assms(1)])
  have sA: "sorted (map g A)"
  proof -
    have "sorted_wrt (\<lambda>i j. row ! j \<le> row ! i) A"
      using sorted_np_argsort[of row] by (simp add: A_def sorted_wrt_rev sorted_wrt_map)
    then show ?thesis by (simp add: g_def sorted_wrt_map)
  qed
  have "sorted (map (\<lambda>i. (- (row ! i), i)) B)" by (simp add: B_def)
  from sorted_map_fst[OF this] have sB: "sorted (map g B)" by (simp add: g_def)
  have "A = B"
    by (rule sorted_by_key_unique[OF inj _ _ _ _ sA sB])
       (simp_all add: A_def B_def set_np_argsort distinct_np_argsort)
  then show ?thesis using assms(2)
    by (simp add: spec_top_k_def top_k_indices_def py_slice_to_def A_def B_def)
qed

lemma mean_reciprocal_rank_cong:
  assumes "\<forall>row \<in> set P. f row = g row"
  shows "mean_reciprocal_rank f y P = mean_reciprocal_rank g y P"
proof -
  have "map (\<lambda>(t, row). reciprocal_rank t (f row)) (zip y P)
      = map (\<lambda>(t, row). reciprocal_rank t (g row)) (zip y P)"
  proof (rule map_cong[OF refl])
    fix x assume "x \<in> set (zip y P)"
    then have "snd x \<in> set P" using set_zip_rightD[of "fst x" "snd x" y P] by simp
    then have "f (snd x) = g (snd x)" using assms by blast
    then show "(case x of (t, row) \<Rightarrow> reciprocal_rank t (f row))
             = (case x of (t, row) \<Rightarrow> reciprocal_rank t (g row))"
      by (cases x) simp
  qed
  then show ?thesis by (simp only: mean_reciprocal_rank_def)
qed

text \<open>
  C5, with the top-K list the code uses. On a non-empty list of labels with one probability
  row per label, \<^verbatim>\<open>calculate_mrr\<close> returns the mean over the examples of the reciprocal of the
  true class's 1-based position in the list \<^verbatim>\<open>np.argsort(row)[::-1][:k]\<close> of the example, 0
  where it is not in the list. The result lies between 0 and 1; it is 0 exactly when no true
  class is in its list, and 1 exactly when every true class is the first entry of its list.
  For \<open>k \<ge> 1\<close> the list has \<open>min k n\<close> distinct classes in non-increasing order of probability,
  and no class outside it is more probable than a class in it. When the probabilities of
  every row are pairwise different, the list is the top-K list of the specification and the
  result is the MRR of the specification.
\<close>

theorem calculate_mrr_mean_and_bounds:
  assumes "y \<noteq> []" and "length P = length y"
  shows "\<exists>m. calculate_mrr y P k = Inr m
     \<and> m = mean_reciprocal_rank (\<lambda>row. top_k_indices row k) y P
     \<and> 0 \<le> m \<and> m \<le> 1
     \<and> (m = 0 \<longleftrightarrow> (\<forall>i < length y. y ! i \<notin> set (map int (top_k_indices (P ! i) k))))
     \<and> (m = 1 \<longleftrightarrow> (\<forall>i < length y. top_k_indices (P ! i) k \<noteq> []
                              \<and> int (hd (top_k_indices (P ! i) k)) = y ! i))
     \<and> (1 \<le> k \<longrightarrow>
          (\<forall>i < length y.
              length (top_k_indices (P ! i) k) = min (nat k) (length (P ! i))
            \<and> distinct (top_k_indices (P ! i) k)
            \<and> set (top_k_indices (P ! i) k) \<subseteq> {0..<length (P ! i)}
            \<and> sorted_wrt (\<ge>) (map (\<lambda>j. P ! i ! j) (top_k_indices (P ! i) k))
            \<and> (\<forall>a \<in> set (top_k_indices (P ! i) k). \<forall>b < length (P ! i).
                  b \<notin> set (top_k_indices (P ! i) k) \<longrightarrow> P ! i ! b \<le> P ! i ! a)))
     \<and> (1 \<le> k \<and> (\<forall>row \<in> set P. distinct row) \<longrightarrow>
          (\<forall>row \<in> set P. top_k_indices row k = spec_top_k row k)
          \<and> m = mean_reciprocal_rank (\<lambda>row. spec_top_k row k) y P)"
proof -
  define rs where "rs = map (\<lambda>(t, row). reciprocal_rank t (top_k_indices row k)) (zip y P)"
  define M where "M = mean_reciprocal_rank (\<lambda>row. top_k_indices row k) y P"
  have n: "length rs = length y" using assms(2) by (simp add: rs_def)
  have pos: "0 < real (length y)" using assms(1) by simp
  have set_rs: "set rs = (\<lambda>i. reciprocal_rank (y ! i) (top_k_indices (P ! i) k)) ` {..<length y}"
    unfolding rs_def by (rule reciprocal_ranks_set[OF assms(2)])
  have unit: "\<forall>x \<in> set rs. 0 \<le> x \<and> x \<le> 1"
    unfolding set_rs using reciprocal_rank_bounds by blast
  have m: "M = sum_list rs / real (length y)"
    by (simp add: M_def mean_reciprocal_rank_def rs_def)
  have eq: "calculate_mrr y P k = Inr M"
    using assms by (simp add: calculate_mrr_eq M_def)
  have b: "0 \<le> sum_list rs \<and> sum_list rs \<le> real (length y)"
    using sum_list_unit_bounds[OF unit] n by simp
  have lo: "0 \<le> M" using b pos by (simp add: m)
  have hi: "M \<le> 1" using b pos by (simp add: m)
  have "M = 0 \<longleftrightarrow> sum_list rs = 0"
    using pos by (simp add: m)
  also have "\<dots> \<longleftrightarrow> (\<forall>x \<in> set rs. x = 0)" by (rule sum_list_unit_eq_0[OF unit])
  also have "\<dots> \<longleftrightarrow> (\<forall>i < length y. y ! i \<notin> set (map int (top_k_indices (P ! i) k)))"
    unfolding set_rs by (auto simp add: reciprocal_rank_eq_0)
  finally have zero: "M = 0
      \<longleftrightarrow> (\<forall>i < length y. y ! i \<notin> set (map int (top_k_indices (P ! i) k)))" .
  have "M = 1 \<longleftrightarrow> sum_list rs = real (length rs)"
    using pos n by (auto simp add: m)
  also have "\<dots> \<longleftrightarrow> (\<forall>x \<in> set rs. x = 1)" by (rule sum_list_unit_eq_length[OF unit])
  also have "\<dots> \<longleftrightarrow> (\<forall>i < length y. top_k_indices (P ! i) k \<noteq> []
                              \<and> int (hd (top_k_indices (P ! i) k)) = y ! i)"
    unfolding set_rs by (auto simp add: reciprocal_rank_eq_1)
  finally have one: "M = 1
      \<longleftrightarrow> (\<forall>i < length y. top_k_indices (P ! i) k \<noteq> []
                              \<and> int (hd (top_k_indices (P ! i) k)) = y ! i)" .
  have lst: "1 \<le> k \<longrightarrow>
          (\<forall>i < length y.
              length (top_k_indices (P ! i) k) = min (nat k) (length (P ! i))
            \<and> distinct (top_k_indices (P ! i) k)
            \<and> set (top_k_indices (P ! i) k) \<subseteq> {0..<length (P ! i)}
            \<and> sorted_wrt (\<ge>) (map (\<lambda>j. P ! i ! j) (top_k_indices (P ! i) k))
            \<and> (\<forall>a \<in> set (top_k_indices (P ! i) k). \<forall>b < length (P ! i).
                  b \<notin> set (top_k_indices (P ! i) k) \<longrightarrow> P ! i ! b \<le> P ! i ! a))"
    using top_k_indices_most_probable
    by (simp add: length_top_k_indices distinct_top_k_indices set_top_k_indices
          sorted_top_k_indices)
  have spec: "1 \<le> k \<and> (\<forall>row \<in> set P. distinct row) \<longrightarrow>
          (\<forall>row \<in> set P. top_k_indices row k = spec_top_k row k)
          \<and> M = mean_reciprocal_rank (\<lambda>row. spec_top_k row k) y P"
  proof
    assume h: "1 \<le> k \<and> (\<forall>row \<in> set P. distinct row)"
    then have e: "\<forall>row \<in> set P. top_k_indices row k = spec_top_k row k"
      using spec_top_k_eq_top_k_indices[of _ k] by simp
    from mean_reciprocal_rank_cong[OF this, of y]
    show "(\<forall>row \<in> set P. top_k_indices row k = spec_top_k row k)
          \<and> M = mean_reciprocal_rank (\<lambda>row. spec_top_k row k) y P"
      using e by (simp add: M_def)
  qed
  show ?thesis
    unfolding M_def[symmetric] using eq lo hi zero one lst spec by blast
qed

lemma top_k_example3: "top_k_indices [1 / 10, 7 / 10, 1 / 5] 3 = [1, 2, 0]"
  by (simp add: top_k_indices_def np_argsort_def py_slice_to_def upt_rec)

theorem calculate_mrr_mean_and_bounds_witness:
  "[0 :: int] \<noteq> [] \<and> length [[1 / 10, 7 / 10, 1 / 5 :: real]] = length [0 :: int]
   \<and> (1 :: int) \<le> 3 \<and> distinct [1 / 10, 7 / 10, 1 / 5 :: real]
   \<and> calculate_mrr [0] [[1 / 10, 7 / 10, 1 / 5]] 3
        = Inr (mean_reciprocal_rank (\<lambda>row. spec_top_k row 3) [0] [[1 / 10, 7 / 10, 1 / 5]])
   \<and> calculate_mrr [0] [[1 / 10, 7 / 10, 1 / 5]] 3 = Inr (1 / 3)"
proof -
  have a: "[0 :: int] \<noteq> []" by simp
  have b: "length [[1 / 10, 7 / 10, 1 / 5 :: real]] = length [0 :: int]" by simp
  have d: "distinct [1 / 10, 7 / 10, 1 / 5 :: real]" by simp
  then have h: "(1 :: int) \<le> 3 \<and> (\<forall>row \<in> set [[1 / 10, 7 / 10, 1 / 5 :: real]]. distinct row)"
    by simp
  note t = calculate_mrr_mean_and_bounds[OF a b, of 3]
  from t obtain m where c: "calculate_mrr [0] [[1 / 10, 7 / 10, 1 / 5]] 3 = Inr m"
    and e: "m = mean_reciprocal_rank (\<lambda>row. top_k_indices row 3) [0] [[1 / 10, 7 / 10, 1 / 5]]"
    and s: "1 \<le> (3 :: int) \<and> (\<forall>row \<in> set [[1 / 10, 7 / 10, 1 / 5 :: real]]. distinct row) \<longrightarrow>
          (\<forall>row \<in> set [[1 / 10, 7 / 10, 1 / 5 :: real]]. top_k_indices row 3 = spec_top_k row 3)
          \<and> m = mean_reciprocal_rank (\<lambda>row. spec_top_k row 3) [0] [[1 / 10, 7 / 10, 1 / 5]]"
    by (elim exE conjE)
  from s h have s': "m = mean_reciprocal_rank (\<lambda>row. spec_top_k row 3) [0] [[1 / 10, 7 / 10, 1 / 5]]"
    by (rule mp[THEN conjunct2])
  have v: "mean_reciprocal_rank (\<lambda>row. top_k_indices row 3) [0] [[1 / 10, 7 / 10, 1 / 5]] = 1 / 3"
    by (simp add: mean_reciprocal_rank_def reciprocal_rank_def top_k_example3)
  have "calculate_mrr [0] [[1 / 10, 7 / 10, 1 / 5]] 3
        = Inr (mean_reciprocal_rank (\<lambda>row. spec_top_k row 3) [0] [[1 / 10, 7 / 10, 1 / 5]])"
    using c s' by (simp only:)
  moreover have "calculate_mrr [0] [[1 / 10, 7 / 10, 1 / 5]] 3 = Inr (1 / 3)"
    using c e v by (simp only:)
  ultimately show ?thesis using a b d by simp
qed

lemma tie_row_top_1: "top_k_indices [1 / 2, 1 / 2] 1 = [1]"
  by (simp add: top_k_indices_def np_argsort_def py_slice_to_def upt_rec)

lemma tie_mrr: "calculate_mrr [0] [[1 / 2, 1 / 2]] 1 = Inr 0"
  by (simp add: calculate_mrr_def tie_row_top_1 Let_def)

lemma tie_spec_top_1: "spec_top_k [1 / 2, 1 / 2] 1 = [0]"
  by (simp add: spec_top_k_def upt_rec less_eq_prod_def)

text \<open>
  C5 as stated, with the top-K list of the specification, fails on a tie: for the row
  \<open>[0.5, 0.5]\<close>, the label 0 and \<open>k = 1\<close> the list of the specification is \<open>[0]\<close> and the MRR
  of the specification is 1, while the list of the code is \<open>[1]\<close> and \<^verbatim>\<open>calculate_mrr\<close>
  returns 0.
\<close>

theorem calculate_mrr_tie_counterexample:
  "calculate_mrr [0] [[1 / 2, 1 / 2]] 1 = Inr 0
   \<and> top_k_indices [1 / 2, 1 / 2] 1 = [1]
   \<and> spec_top_k [1 / 2, 1 / 2] 1 = [0]
   \<and> mean_reciprocal_rank (\<lambda>row. spec_top_k row 1) [0] [[1 / 2, 1 / 2]] = 1"
proof (intro conjI)
  show "calculate_mrr [0] [[1 / 2, 1 / 2]] 1 = Inr 0" by (rule tie_mrr)
  show "top_k_indices [1 / 2, 1 / 2] 1 = [1]" by (rule tie_row_top_1)
  show "spec_top_k [1 / 2, 1 / 2] 1 = [0]" by (rule tie_spec_top_1)
  show "mean_reciprocal_rank (\<lambda>row. spec_top_k row 1) [0] [[1 / 2, 1 / 2]] = 1"
    by (simp add: mean_reciprocal_rank_def reciprocal_rank_def tie_spec_top_1)
qed

text \<open>
  C9. \<^verbatim>\<open>calculate_mrr\<close> divides the accumulated sum by \<^verbatim>\<open>len(y_true)\<close> with no check. On an
  empty label list the loop does nothing, the division is \<open>0 / 0\<close> and the outcome is Python's
  \<^verbatim>\<open>ZeroDivisionError\<close> from the division itself: no number is returned, in particular not 0.
  On a non-empty list with a row for every label a number is returned, the sum over the
  count.
\<close>

theorem calculate_mrr_empty_labels:
  "mrr_loop P k 0 0 [] = Inr 0
   \<and> calculate_mrr [] P k = Inl ZeroDivisionError
   \<and> calculate_mrr [] P k \<noteq> Inr 0
   \<and> (y \<noteq> [] \<and> length y \<le> length P \<longrightarrow>
        (\<exists>s. mrr_loop P k 0 0 y = Inr s \<and> calculate_mrr y P k = Inr (s / real (length y))))"
proof -
  have "y \<noteq> [] \<and> length y \<le> length P \<longrightarrow>
        (\<exists>s. mrr_loop P k 0 0 y = Inr s \<and> calculate_mrr y P k = Inr (s / real (length y)))"
  proof
    assume h: "y \<noteq> [] \<and> length y \<le> length P"
    then have "0 + length y \<le> length P" by simp
    from mrr_loop_sum[OF this, of k 0] h
    show "\<exists>s. mrr_loop P k 0 0 y = Inr s \<and> calculate_mrr y P k = Inr (s / real (length y))"
      by (simp add: calculate_mrr_def)
  qed
  then show ?thesis by (simp add: calculate_mrr_def)
qed

theorem calculate_mrr_empty_labels_witness:
  "[1 :: int] \<noteq> [] \<and> length [1 :: int] \<le> length [[1 / 10, 7 / 10, 1 / 5 :: real]]
   \<and> (\<exists>s. mrr_loop [[1 / 10, 7 / 10, 1 / 5]] 3 0 0 [1] = Inr s
         \<and> calculate_mrr [1] [[1 / 10, 7 / 10, 1 / 5]] 3 = Inr (s / real (length [1 :: int])))
   \<and> calculate_mrr [] [[1 / 10, 7 / 10, 1 / 5]] 3 = Inl ZeroDivisionError"
  using calculate_mrr_empty_labels [of "[[1 / 10, 7 / 10, 1 / 5]]" 3 "[1]"]
  by simp

subsection \<open>Top-1 accuracy\<close>

lemma argmax_from_spec:
  assumes "best < length pre" and "bv = pre ! best" and "\<forall>x \<in> set pre. x \<le> bv"
    and "\<forall>j < best. pre ! j < bv"
  shows "argmax_from best bv (length pre) xs < length (pre @ xs)
       \<and> (\<forall>x \<in> set (pre @ xs). x \<le> (pre @ xs) ! argmax_from best bv (length pre) xs)
       \<and> (\<forall>j < argmax_from best bv (length pre) xs.
             (pre @ xs) ! j < (pre @ xs) ! argmax_from best bv (length pre) xs)"
  using assms
proof (induction xs arbitrary: pre best bv)
  case Nil
  then show ?case by simp
next
  case (Cons x xs)
  show ?case
  proof (cases "bv < x")
    case True
    have a: "length pre < length (pre @ [x])" by simp
    have b: "x = (pre @ [x]) ! length pre" by simp
    have c: "\<forall>z \<in> set (pre @ [x]). z \<le> x" using Cons.prems(3) True by auto
    have d: "\<forall>j < length pre. (pre @ [x]) ! j < x"
    proof (intro allI impI)
      fix j assume j: "j < length pre"
      then have "pre ! j \<le> bv" using Cons.prems(3) by simp
      then show "(pre @ [x]) ! j < x" using True j by (simp add: nth_append)
    qed
    from Cons.IH[OF a b c d] True show ?thesis by simp
  next
    case False
    have a: "best < length (pre @ [x])" using Cons.prems(1) by simp
    have b: "bv = (pre @ [x]) ! best" using Cons.prems(1,2) by (simp add: nth_append)
    have c: "\<forall>z \<in> set (pre @ [x]). z \<le> bv" using Cons.prems(3) False by auto
    have d: "\<forall>j < best. (pre @ [x]) ! j < bv"
      using Cons.prems(1,4) by (simp add: nth_append)
    from Cons.IH[OF a b c d] False show ?thesis by simp
  qed
qed

lemma np_argmax_spec:
  assumes "row \<noteq> []"
  shows "\<exists>r. np_argmax row = Inr r \<and> r < length row \<and> (\<forall>x \<in> set row. x \<le> row ! r)
           \<and> (\<forall>j < r. row ! j < row ! r)"
proof -
  obtain x xs where row: "row = x # xs" using assms by (cases row) auto
  from argmax_from_spec[of 0 "[x]" x xs] show ?thesis
    by (simp add: np_argmax_def row)
qed

lemma Max_nth:
  assumes "r < length row" and "\<forall>x \<in> set row. x \<le> row ! r"
  shows "Max (set row) = row ! r"
  using assms by (intro Max_eqI) auto

lemma np_argmax_first_maximal:
  assumes "row \<noteq> []"
  shows "np_argmax row = Inr (first_maximal_index row)"
proof -
  from np_argmax_spec[OF assms] obtain r where r: "np_argmax row = Inr r" "r < length row"
    "\<forall>x \<in> set row. x \<le> row ! r" "\<forall>j < r. row ! j < row ! r" by blast
  have M: "Max (set row) = row ! r" using r(2,3) by (rule Max_nth)
  have "takeWhile (\<lambda>x. x \<noteq> Max (set row)) row = take r row"
    by (rule takeWhile_eq_take_P_nth) (use r(4) M in auto)
  then have "first_maximal_index row = r"
    using r(2) by (simp add: first_maximal_index_def)
  then show ?thesis using r(1) by simp
qed

lemma np_argmax_rows_eq:
  "\<forall>row \<in> set P. row \<noteq> [] \<Longrightarrow> np_argmax_rows P = Inr (map first_maximal_index P)"
  by (induction P) (simp_all add: np_argmax_first_maximal)

lemma top_1_last: "row \<noteq> [] \<Longrightarrow> top_k_indices row 1 = [last (np_argsort row)]"
proof -
  assume "row \<noteq> []"
  then have ne: "np_argsort row \<noteq> []"
    using length_np_argsort[of row] by auto
  then have "take 1 (rev (np_argsort row)) = [hd (rev (np_argsort row))]"
    by (cases "rev (np_argsort row)") auto
  then show ?thesis using ne by (simp add: top_k_indices_def py_slice_to_def hd_rev)
qed

lemma sorted_map_last:
  fixes f :: "'a \<Rightarrow> real"
  shows "sorted (map f xs) \<Longrightarrow> x \<in> set xs \<Longrightarrow> f x \<le> f (last xs)"
proof (induction xs)
  case Nil
  then show ?case by simp
next
  case (Cons a xs)
  then show ?case by (cases xs) auto
qed

lemma last_np_argsort_max:
  assumes "row \<noteq> []"
  shows "last (np_argsort row) < length row
       \<and> (\<forall>i < length row. row ! i \<le> row ! last (np_argsort row))"
proof -
  have ne: "np_argsort row \<noteq> []" using assms length_np_argsort[of row] by auto
  then have "last (np_argsort row) \<in> set (np_argsort row)" by simp
  then have l: "last (np_argsort row) < length row" by (simp add: set_np_argsort)
  have "\<forall>i < length row. row ! i \<le> row ! last (np_argsort row)"
  proof (intro allI impI)
    fix i assume "i < length row"
    then have "i \<in> set (np_argsort row)" by (simp add: set_np_argsort)
    from sorted_map_last[OF sorted_np_argsort this] show "row ! i \<le> row ! last (np_argsort row)" .
  qed
  then show ?thesis using l by simp
qed

lemma unique_maximum_iff:
  "unique_maximum row \<longleftrightarrow> (\<exists>i < length row. \<forall>j < length row. j = i \<or> row ! j < row ! i)"
  by (simp add: unique_maximum_def list_ex_iff list_all_iff Bex_def Ball_def)

lemma unique_maximum_top_1:
  assumes "unique_maximum row"
  shows "top_k_indices row 1 = [first_maximal_index row]"
proof -
  from assms obtain i where i: "i < length row" "\<forall>j < length row. j = i \<or> row ! j < row ! i"
    unfolding unique_maximum_iff by blast
  then have ne: "row \<noteq> []" by auto
  from np_argmax_spec[OF ne] np_argmax_first_maximal[OF ne]
  have r: "first_maximal_index row < length row"
    "\<forall>x \<in> set row. x \<le> row ! first_maximal_index row" by auto
  have "row ! i \<le> row ! first_maximal_index row" using r(2) i(1) by simp
  then have a: "first_maximal_index row = i" using i(2) r(1) by force
  from last_np_argsort_max[OF ne]
  have l: "last (np_argsort row) < length row" "row ! i \<le> row ! last (np_argsort row)"
    using i(1) by auto
  then have b: "last (np_argsort row) = i" using i(2) by force
  show ?thesis using a b top_1_last[OF ne] by simp
qed

lemma str_int_1: "str_int 1 = ''1''"
  by (simp add: str_int_def str_nat.simps digit_char_def)

lemma evaluate_topk_1:
  assumes "y \<noteq> []" and "length P = length y" and "\<forall>row \<in> set P. row \<noteq> []"
  shows "evaluate_topk lib y P [1]
     = Inr [''Top-1'' \<mapsto> Score (real (length (filter (\<lambda>(t, row). t = int (first_maximal_index row))
                                                   (zip y P))) / real (length y))]"
proof -
  have z: "zip y (map first_maximal_index P)
             = map (\<lambda>(t, row). (t, first_maximal_index row)) (zip y P)"
    by (simp add: zip_map2)
  have "length (filter (\<lambda>(t, p). t = int p) (zip y (map first_maximal_index P)))
     = length (filter (\<lambda>(t, row). t = int (first_maximal_index row)) (zip y P))"
    unfolding z length_filter_map by (simp add: comp_def case_prod_unfold)
  then show ?thesis
    using assms
    by (simp add: evaluate_topk_def np_argmax_rows_eq accuracy_score_def str_int_1)
qed

lemma extractor_accuracy_unique:
  assumes "\<forall>row \<in> set P. unique_maximum row"
  shows "extractor_accuracy y P 1
     = real (length (filter (\<lambda>(t, row). t = int (first_maximal_index row)) (zip y P)))
         / real (length y)"
proof -
  have "filter (\<lambda>(t, row). t \<in> set (map int (top_k_indices row 1))) (zip y P)
      = filter (\<lambda>(t, row). t = int (first_maximal_index row)) (zip y P)"
  proof (rule filter_cong[OF refl])
    fix x assume "x \<in> set (zip y P)"
    then have "snd x \<in> set P" using set_zip_rightD[of "fst x" "snd x" y P] by simp
    then have "top_k_indices (snd x) 1 = [first_maximal_index (snd x)]"
      using assms unique_maximum_top_1 by blast
    then show "(case x of (t, row) \<Rightarrow> t \<in> set (map int (top_k_indices row 1)))
             = (case x of (t, row) \<Rightarrow> t = int (first_maximal_index row))"
      by (cases x) simp
  qed
  then show ?thesis by (simp add: extractor_accuracy_def)
qed

text \<open>
  C6, with the restriction the code needs. On a non-empty list of labels with one non-empty
  probability row per label, the \<open>Top-1\<close> entry of \<^verbatim>\<open>evaluate_topk\<close> is the fraction of
  examples whose label is the first index at which their row is maximal (\<^verbatim>\<open>np.argmax\<close>).
  When every row takes its maximum at one index only, this is also the fraction of examples
  whose label is in the top-1 list the extractor returns.
\<close>

theorem top_1_accuracy_is_argmax_match:
  assumes "y \<noteq> []" and "length P = length y" and "\<forall>row \<in> set P. row \<noteq> []"
  shows "evaluate_topk lib y P [1]
     = Inr [''Top-1'' \<mapsto> Score (real (length (filter (\<lambda>(t, row). t = int (first_maximal_index row))
                                                   (zip y P))) / real (length y))]
   \<and> ((\<forall>row \<in> set P. unique_maximum row)
        \<longrightarrow> evaluate_topk lib y P [1] = Inr [''Top-1'' \<mapsto> Score (extractor_accuracy y P 1)])"
  using evaluate_topk_1[OF assms, of lib] extractor_accuracy_unique[of P y]
  by simp

theorem top_1_accuracy_is_argmax_match_witness:
  "[1 :: int] \<noteq> [] \<and> length [[1 / 10, 7 / 10, 1 / 5 :: real]] = length [1 :: int]
   \<and> [1 / 10, 7 / 10, 1 / 5 :: real] \<noteq> []
   \<and> unique_maximum [1 / 10, 7 / 10, 1 / 5]
   \<and> evaluate_topk (\<lambda>y P k. Inl ValueError) [1] [[1 / 10, 7 / 10, 1 / 5]] [1]
        = Inr [''Top-1'' \<mapsto> Score (extractor_accuracy [1] [[1 / 10, 7 / 10, 1 / 5]] 1)]"
proof -
  have a: "[1 :: int] \<noteq> []" by simp
  have b: "length [[1 / 10, 7 / 10, 1 / 5 :: real]] = length [1 :: int]" by simp
  have c: "\<forall>row \<in> set [[1 / 10, 7 / 10, 1 / 5 :: real]]. row \<noteq> []" by simp
  have u: "unique_maximum [1 / 10, 7 / 10, 1 / 5]"
    by (simp add: unique_maximum_def upt_rec)
  then have d: "\<forall>row \<in> set [[1 / 10, 7 / 10, 1 / 5 :: real]]. unique_maximum row" by simp
  have "evaluate_topk (\<lambda>y P k. Inl ValueError) [1] [[1 / 10, 7 / 10, 1 / 5]] [1]
        = Inr [''Top-1'' \<mapsto> Score (extractor_accuracy [1] [[1 / 10, 7 / 10, 1 / 5]] 1)]"
    by (rule top_1_accuracy_is_argmax_match[OF a b c, THEN conjunct2, THEN mp]) (rule d)
  then show ?thesis using a u by simp
qed

lemma tie_top_1: "top_k_indices [1 / 2, 1 / 2] 1 = [1]"
  by (simp add: top_k_indices_def np_argsort_def py_slice_to_def upt_rec)

lemma tie_argmax: "np_argmax_rows [[1 / 2, 1 / 2]] = Inr [0]"
  by (simp add: np_argmax_def)

text \<open>
  C6 as stated fails on a tie: for the row \<open>[0.5, 0.5]\<close> and the label 0, \<^verbatim>\<open>np.argmax\<close> is 0
  and the top-1 accuracy is 1, while the top-1 list of the extractor is \<open>[1]\<close> and does not
  contain the label.
\<close>

theorem top_1_tie_counterexample:
  "evaluate_topk (\<lambda>y P k. Inl ValueError) [0] [[1 / 2, 1 / 2]] [1] = Inr [''Top-1'' \<mapsto> Score 1]
   \<and> top_k_indices [1 / 2, 1 / 2] 1 = [1]
   \<and> extractor_accuracy [0] [[1 / 2, 1 / 2]] 1 = 0"
proof (intro conjI)
  show "evaluate_topk (\<lambda>y P k. Inl ValueError) [0] [[1 / 2, 1 / 2]] [1] = Inr [''Top-1'' \<mapsto> Score 1]"
    by (simp add: evaluate_topk_def tie_argmax accuracy_score_def str_int_1
          del: np_argmax_rows.simps)
  show "top_k_indices [1 / 2, 1 / 2] 1 = [1]" by (rule tie_top_1)
  show "extractor_accuracy [0] [[1 / 2, 1 / 2]] 1 = 0"
    by (simp add: extractor_accuracy_def tie_top_1)
qed

subsection \<open>Explainability\<close>

lemma collect_importance_positive:
  "collect_importance d fv i cols = Inr fi \<Longrightarrow> \<forall>f \<in> set fi. 0 < raw_importance f"
proof (induction cols arbitrary: i fi)
  case Nil
  then show ?case by simp
next
  case (Cons col cols)
  then show ?case
    by (auto simp add: Let_def split: if_splits option.splits sum.splits)
qed

lemma collect_importance_nonempty:
  "collect_importance d fv i cols = Inr fi \<Longrightarrow>
   j < length cols \<Longrightarrow> d (''f'' @ str_nat (i + j)) = Some x \<Longrightarrow> 0 < x \<Longrightarrow> fi \<noteq> []"
proof (induction cols arbitrary: i j fi)
  case Nil
  then show ?case by simp
next
  case (Cons col cols)
  show ?case
  proof (cases j)
    case 0
    then show ?thesis using Cons.prems
      by (auto simp add: Let_def split: if_splits option.splits sum.splits)
  next
    case (Suc j')
    then have a: "j' < length cols" and b: "d (''f'' @ str_nat (Suc i + j')) = Some x"
      using Cons.prems by simp_all
    show ?thesis using Cons.prems(1) Cons.IH[OF _ a b Cons.prems(4)]
      by (auto simp add: Let_def split: if_splits option.splits sum.splits)
  qed
qed

lemma set_py_sort_reverse: "set (py_sort_reverse key xs) = set xs"
  by (simp add: py_sort_reverse_def)

lemma length_py_sort_reverse: "length (py_sort_reverse key xs) = length xs"
  by (simp add: py_sort_reverse_def)

lemma sorted_py_sort_reverse: "sorted_wrt (\<ge>) (map key (py_sort_reverse key xs))"
proof -
  have "sorted (map key (sort_key key (rev xs)))" by simp
  then have "sorted_wrt (\<ge>) (rev (map key (sort_key key (rev xs))))"
    by (simp add: sorted_wrt_rev)
  then show ?thesis by (simp add: py_sort_reverse_def rev_map)
qed

lemma sorted_top_features: "sorted_wrt (\<ge>) (map raw_importance (top_features fi n))"
  using sorted_wrt_py_slice_to[OF sorted_py_sort_reverse, of n raw_importance fi]
  by (simp add: top_features_def py_slice_to_map)

lemma set_top_features: "set (top_features fi n) \<subseteq> set fi"
  using set_py_slice_to[of n "py_sort_reverse raw_importance fi"]
  by (simp add: top_features_def set_py_sort_reverse)

lemma length_top_features:
  "length (top_features fi n) = (if 0 \<le> n then min (nat n) (length fi) else length fi - nat (- n))"
  by (simp add: top_features_def length_py_slice_to length_py_sort_reverse)

lemma fold_max_eq_Max: "fold max xs (x :: real) = Max (set (x # xs))"
  using Max.set_eq_fold[of x xs] by simp

lemma max_importance_Max:
  "topk \<noteq> [] \<Longrightarrow> max_importance topk = Max (set (map raw_importance topk))"
  by (cases topk) (simp_all add: max_importance_def fold_max_eq_Max)

lemma max_importance_hd:
  assumes "sorted_wrt (\<ge>) (map raw_importance topk)" and "topk \<noteq> []"
  shows "max_importance topk = raw_importance (hd topk)"
proof -
  obtain f fs where t: "topk = f # fs" using assms(2) by (cases topk) auto
  have "Max (set (map raw_importance topk)) = raw_importance f"
    using assms(1) unfolding t by (intro Max_eqI) auto
  then show ?thesis using max_importance_Max[OF assms(2)] t by simp
qed

lemma get_feature_importance_Inr:
  assumes "get_feature_importance d cols fv top_n = Inr res"
  obtains fi where "collect_importance d fv 0 cols = Inr fi"
    and "res = map (\<lambda>feat. \<lparr> feature = raw_feature feat,
                 importance = raw_importance feat / max_importance (top_features fi top_n),
                 feature_value = raw_value feat,
                 impact = impact_bucket (raw_importance feat / max_importance (top_features fi top_n)) \<rparr>)
               (top_features fi top_n)"
  using assms
  by (auto simp add: get_feature_importance_def Let_def split: sum.splits)

lemma feature_importance_props:
  assumes "get_feature_importance d cols fv top_n = Inr res"
  shows "(\<exists>fi. collect_importance d fv 0 cols = Inr fi
            \<and> map feature res = map raw_feature (top_features fi top_n)
            \<and> map importance res
                = map (\<lambda>f. raw_importance f / Max (set (map raw_importance (top_features fi top_n))))
                    (top_features fi top_n))
       \<and> sorted_wrt (\<ge>) (map importance res)
       \<and> (\<forall>f \<in> set res. 0 < importance f \<and> importance f \<le> 1)
       \<and> (res \<noteq> [] \<longrightarrow> importance (hd res) = 1 \<and> impact (hd res) = ''high'')
       \<and> ((\<exists>j < length cols. \<exists>x. d (''f'' @ str_nat j) = Some x \<and> 0 < x) \<and> 1 \<le> top_n
            \<longrightarrow> res \<noteq> [])"
proof -
  from assms obtain fi where fi: "collect_importance d fv 0 cols = Inr fi"
    and res: "res = map (\<lambda>feat. \<lparr> feature = raw_feature feat,
                 importance = raw_importance feat / max_importance (top_features fi top_n),
                 feature_value = raw_value feat,
                 impact = impact_bucket (raw_importance feat / max_importance (top_features fi top_n)) \<rparr>)
               (top_features fi top_n)"
    by (rule get_feature_importance_Inr)
  define topk where "topk = top_features fi top_n"
  define mx where "mx = max_importance topk"
  have pos: "\<forall>f \<in> set topk. 0 < raw_importance f"
    using collect_importance_positive[OF fi] set_top_features[of fi top_n]
    by (auto simp add: topk_def)
  have srt: "sorted_wrt (\<ge>) (map raw_importance topk)"
    unfolding topk_def by (rule sorted_top_features)
  have mx_Max: "topk \<noteq> [] \<Longrightarrow> mx = Max (set (map raw_importance topk))"
    unfolding mx_def by (rule max_importance_Max)
  have le_mx: "\<forall>f \<in> set topk. raw_importance f \<le> mx"
  proof
    fix f assume f: "f \<in> set topk"
    then have "topk \<noteq> []" by auto
    from mx_Max[OF this] f show "raw_importance f \<le> mx" by simp
  qed
  have mx_hd: "topk \<noteq> [] \<Longrightarrow> mx = raw_importance (hd topk)"
    unfolding mx_def using srt by (rule max_importance_hd)
  have imp: "map importance res = map (\<lambda>f. raw_importance f / mx) topk"
    by (simp add: res topk_def mx_def comp_def)
  have A: "\<exists>fi. collect_importance d fv 0 cols = Inr fi
            \<and> map feature res = map raw_feature (top_features fi top_n)
            \<and> map importance res
                = map (\<lambda>f. raw_importance f / Max (set (map raw_importance (top_features fi top_n))))
                    (top_features fi top_n)"
  proof (intro exI[of _ fi] conjI)
    show "collect_importance d fv 0 cols = Inr fi" by (rule fi)
    show "map feature res = map raw_feature (top_features fi top_n)"
      by (simp add: res comp_def)
    show "map importance res
                = map (\<lambda>f. raw_importance f / Max (set (map raw_importance (top_features fi top_n))))
                    (top_features fi top_n)"
    proof (cases "topk = []")
      case True
      then show ?thesis using imp by (simp add: topk_def)
    next
      case False
      from mx_Max[OF this] imp show ?thesis by (simp add: topk_def)
    qed
  qed
  have B: "sorted_wrt (\<ge>) (map importance res)"
  proof -
    have "0 < mx" if "topk \<noteq> []"
      using mx_hd[OF that] pos that by simp
    then have "sorted_wrt (\<ge>) (map (\<lambda>f. raw_importance f / mx) topk)"
      using srt
      by (cases "topk = []") (auto simp add: sorted_wrt_map divide_right_mono
            intro: sorted_wrt_mono_rel[rotated])
    then show ?thesis by (simp add: imp)
  qed
  have C: "\<forall>f \<in> set res. 0 < importance f \<and> importance f \<le> 1"
  proof
    fix f assume "f \<in> set res"
    then have "importance f \<in> set (map importance res)" by simp
    then obtain g where g: "g \<in> set topk" "importance f = raw_importance g / mx"
      unfolding imp by auto
    have "0 < raw_importance g" "raw_importance g \<le> mx" using g(1) pos le_mx by auto
    then show "0 < importance f \<and> importance f \<le> 1" using g(2) by simp
  qed
  have D: "res \<noteq> [] \<longrightarrow> importance (hd res) = 1 \<and> impact (hd res) = ''high''"
  proof
    assume "res \<noteq> []"
    then have ne: "topk \<noteq> []" by (simp add: res topk_def)
    have p: "0 < raw_importance (hd topk)" using pos ne by simp
    have "hd res = \<lparr> feature = raw_feature (hd topk),
                 importance = raw_importance (hd topk) / mx,
                 feature_value = raw_value (hd topk),
                 impact = impact_bucket (raw_importance (hd topk) / mx) \<rparr>"
      using ne by (simp add: res topk_def[symmetric] mx_def[symmetric] hd_map)
    then show "importance (hd res) = 1 \<and> impact (hd res) = ''high''"
      using mx_hd[OF ne] p by (simp add: impact_bucket_def)
  qed
  have E: "(\<exists>j < length cols. \<exists>x. d (''f'' @ str_nat j) = Some x \<and> 0 < x) \<and> 1 \<le> top_n
            \<longrightarrow> res \<noteq> []"
  proof
    assume h: "(\<exists>j < length cols. \<exists>x. d (''f'' @ str_nat j) = Some x \<and> 0 < x) \<and> 1 \<le> top_n"
    then obtain j x where j: "j < length cols" "d (''f'' @ str_nat (0 + j)) = Some x" "0 < x"
      by auto
    have "fi \<noteq> []" by (rule collect_importance_nonempty[OF fi j])
    then have "0 < length fi" by simp
    then have "0 < length (top_features fi top_n)"
      using h by (simp add: length_top_features)
    then show "res \<noteq> []" by (simp add: res)
  qed
  show ?thesis using A B C D E by blast
qed

lemma collect_importance_returns:
  "set cols \<subseteq> dom fv \<Longrightarrow> \<exists>fi. collect_importance d fv i cols = Inr fi"
proof (induction cols arbitrary: i)
  case Nil
  then show ?case by simp
next
  case (Cons col cols)
  then obtain v where v: "fv col = Some v" by auto
  from Cons obtain fi where "collect_importance d fv (Suc i) cols = Inr fi" by force
  then show ?case using v by (simp add: Let_def)
qed

text \<open>
  C10. \<^verbatim>\<open>get_feature_importance\<close> returns whenever the one-row table has every feature
  column. Whenever it returns, every returned importance is the raw importance of a selected
  feature divided by the greatest raw importance among the selected top-N, the importances
  are in non-increasing order and lie in \<open>(0, 1]\<close>, and the first returned feature, if there
  is one, has importance exactly 1 and impact \<open>high\<close>. There is a first feature as soon as
  some column has a positive raw importance and \<open>top_n \<ge> 1\<close>.
\<close>

theorem feature_importance_normalized:
  "(set cols \<subseteq> dom fv \<longrightarrow> (\<exists>r. get_feature_importance d cols fv top_n = Inr r))
   \<and> (get_feature_importance d cols fv top_n = Inr res \<longrightarrow>
        (\<exists>fi. collect_importance d fv 0 cols = Inr fi
            \<and> map feature res = map raw_feature (top_features fi top_n)
            \<and> map importance res
                = map (\<lambda>f. raw_importance f / Max (set (map raw_importance (top_features fi top_n))))
                    (top_features fi top_n))
       \<and> sorted_wrt (\<ge>) (map importance res)
       \<and> (\<forall>f \<in> set res. 0 < importance f \<and> importance f \<le> 1)
       \<and> (res \<noteq> [] \<longrightarrow> importance (hd res) = 1 \<and> impact (hd res) = ''high'')
       \<and> ((\<exists>j < length cols. \<exists>x. d (''f'' @ str_nat j) = Some x \<and> 0 < x) \<and> 1 \<le> top_n
            \<longrightarrow> res \<noteq> []))"
proof (rule conjI)
  show "set cols \<subseteq> dom fv \<longrightarrow> (\<exists>r. get_feature_importance d cols fv top_n = Inr r)"
  proof
    assume "set cols \<subseteq> dom fv"
    from collect_importance_returns[OF this, of d 0]
    show "\<exists>r. get_feature_importance d cols fv top_n = Inr r"
      by (auto simp add: get_feature_importance_def Let_def)
  qed
  show "get_feature_importance d cols fv top_n = Inr res \<longrightarrow>
        (\<exists>fi. collect_importance d fv 0 cols = Inr fi
            \<and> map feature res = map raw_feature (top_features fi top_n)
            \<and> map importance res
                = map (\<lambda>f. raw_importance f / Max (set (map raw_importance (top_features fi top_n))))
                    (top_features fi top_n))
       \<and> sorted_wrt (\<ge>) (map importance res)
       \<and> (\<forall>f \<in> set res. 0 < importance f \<and> importance f \<le> 1)
       \<and> (res \<noteq> [] \<longrightarrow> importance (hd res) = 1 \<and> impact (hd res) = ''high'')
       \<and> ((\<exists>j < length cols. \<exists>x. d (''f'' @ str_nat j) = Some x \<and> 0 < x) \<and> 1 \<le> top_n
            \<longrightarrow> res \<noteq> [])"
    by (rule impI) (rule feature_importance_props)
qed

lemma example_importance:
  "get_feature_importance [''f0'' \<mapsto> 3, ''f2'' \<mapsto> 6] [''a'', ''b'', ''c'']
       [''a'' \<mapsto> (10 :: int), ''b'' \<mapsto> 20, ''c'' \<mapsto> 30] 5
     = Inr [ \<lparr> feature = ''c'', importance = 1, feature_value = 30, impact = ''high'' \<rparr>,
             \<lparr> feature = ''a'', importance = 1 / 2, feature_value = 10, impact = ''medium'' \<rparr> ]"
  by (simp add: get_feature_importance_def top_features_def py_sort_reverse_def py_slice_to_def
        max_importance_def impact_bucket_def str_nat.simps digit_char_def Let_def)

theorem feature_importance_normalized_witness:
  "set [''a'', ''b'', ''c''] \<subseteq> dom [''a'' \<mapsto> (10 :: int), ''b'' \<mapsto> 20, ''c'' \<mapsto> 30]
   \<and> get_feature_importance [''f0'' \<mapsto> 3, ''f2'' \<mapsto> 6] [''a'', ''b'', ''c'']
       [''a'' \<mapsto> (10 :: int), ''b'' \<mapsto> 20, ''c'' \<mapsto> 30] 5
     = Inr [ \<lparr> feature = ''c'', importance = 1, feature_value = 30, impact = ''high'' \<rparr>,
             \<lparr> feature = ''a'', importance = 1 / 2, feature_value = 10, impact = ''medium'' \<rparr> ]
   \<and> importance (hd [ \<lparr> feature = ''c'', importance = 1, feature_value = 30 :: int, impact = ''high'' \<rparr>,
             \<lparr> feature = ''a'', importance = 1 / 2, feature_value = 10, impact = ''medium'' \<rparr> ]) = 1
   \<and> impact (hd [ \<lparr> feature = ''c'', importance = 1, feature_value = 30 :: int, impact = ''high'' \<rparr>,
             \<lparr> feature = ''a'', importance = 1 / 2, feature_value = 10, impact = ''medium'' \<rparr> ]) = ''high''"
proof -
  have "importance (hd [ \<lparr> feature = ''c'', importance = 1, feature_value = 30 :: int, impact = ''high'' \<rparr>,
             \<lparr> feature = ''a'', importance = 1 / 2, feature_value = 10, impact = ''medium'' \<rparr> ]) = 1
   \<and> impact (hd [ \<lparr> feature = ''c'', importance = 1, feature_value = 30 :: int, impact = ''high'' \<rparr>,
             \<lparr> feature = ''a'', importance = 1 / 2, feature_value = 10, impact = ''medium'' \<rparr> ]) = ''high''"
    by (rule feature_importance_normalized[THEN conjunct2, THEN mp, OF example_importance,
          THEN conjunct2, THEN conjunct2, THEN conjunct2, THEN conjunct1, THEN mp]) simp
  then show ?thesis using example_importance by simp
qed

end
